theory Spec2Isabelle
  imports Main "HOL-Library.Word"
begin

unbundle bit_operations_syntax

section \<open>LisztFormat.h: scalar types, constants and records\<close>

text \<open>
  The header declares the on-disk records of the Liszt mesh format as packed C++ structs.
  Fixed-width integers are words; \<open>char\<close> is a byte. \<open>PositionTable\<close>, a flexible array
  of coordinate triples with no member of fixed size, is not used below.
\<close>

type_synonym byte = "8 word"
type_synonym file_ptr = "64 word"
type_synonym lsize_t = "32 word"
type_synonym id_t = "32 word"

definition LISZT_MAGIC_NUMBER :: "32 word" where
  "LISZT_MAGIC_NUMBER = 0x18111022"

record LisztHeader =
  magic_number :: "32 word"
  nV :: lsize_t
  nE :: lsize_t
  nF :: lsize_t
  nC :: lsize_t
  nFE :: lsize_t
  nBoundaries :: lsize_t
  field_table_index :: file_ptr
  facet_edge_table :: file_ptr
  boundary_set_table :: file_ptr

record HalfFacet =
  cell :: id_t
  vert :: id_t

text \<open>
  The array \<open>HalfFacet hf[2]\<close> is the pair of fields \<open>hf_0\<close>, \<open>hf_1\<close>. Member names that
  several structs share, or that are names of HOL, carry a prefix for their struct below
  (\<open>bs_type\<close>, \<open>lt_type\<close>, \<open>ff_name\<close>).
\<close>

record FileFacetEdge =
  face :: id_t
  edge :: id_t
  hf_0 :: HalfFacet
  hf_1 :: HalfFacet

subsection \<open>IOElemType\<close>

datatype IOElemType = VERTEX_T | CELL_T | EDGE_T | FACE_T | TYPE_SIZE | AGG_FLAG

text \<open>
  The enumerators' values. An object of the enumeration type is stored as its underlying
  integer, so a record field of type \<open>IOElemType\<close> is a 32-bit word: it can hold an
  element type with \<open>AGG_FLAG\<close> set, which is no enumerator.
\<close>

fun IOElemType_val :: "IOElemType \<Rightarrow> 32 word" where
  "IOElemType_val VERTEX_T = 0"
| "IOElemType_val CELL_T = 1"
| "IOElemType_val EDGE_T = 2"
| "IOElemType_val FACE_T = 3"
| "IOElemType_val TYPE_SIZE = 4"
| "IOElemType_val AGG_FLAG = push_bit 7 1"

type_synonym IOElemType_rep = "32 word"

subsection \<open>BoundarySet\<close>

text \<open>
  The two anonymous unions of \<open>BoundarySet\<close> each hold one 32-bit word: \<open>start\<close> and
  \<open>left_id\<close> name the first, \<open>end\<close> and \<open>right_id\<close> the second. The record keeps one
  storage field per union; the member names are the accessors below.
\<close>

record BoundarySet =
  bs_type :: IOElemType_rep
  bs_union0 :: "32 word"
  bs_union1 :: "32 word"
  name_string :: file_ptr

definition bs_start :: "BoundarySet \<Rightarrow> id_t" where
  "bs_start b = bs_union0 b"

definition bs_left_id :: "BoundarySet \<Rightarrow> lsize_t" where
  "bs_left_id b = bs_union0 b"

definition bs_end :: "BoundarySet \<Rightarrow> id_t" where
  "bs_end b = bs_union1 b"

definition bs_right_id :: "BoundarySet \<Rightarrow> lsize_t" where
  "bs_right_id b = bs_union1 b"

definition set_start :: "id_t \<Rightarrow> BoundarySet \<Rightarrow> BoundarySet" where
  "set_start v b = b\<lparr>bs_union0 := v\<rparr>"

definition set_left_id :: "lsize_t \<Rightarrow> BoundarySet \<Rightarrow> BoundarySet" where
  "set_left_id v b = b\<lparr>bs_union0 := v\<rparr>"

definition set_end :: "id_t \<Rightarrow> BoundarySet \<Rightarrow> BoundarySet" where
  "set_end v b = b\<lparr>bs_union1 := v\<rparr>"

definition set_right_id :: "lsize_t \<Rightarrow> BoundarySet \<Rightarrow> BoundarySet" where
  "set_right_id v b = b\<lparr>bs_union1 := v\<rparr>"

subsection \<open>Field types\<close>

definition LISZT_INT :: byte where "LISZT_INT = 0"
definition LISZT_FLOAT :: byte where "LISZT_FLOAT = 1"
definition LISZT_DOUBLE :: byte where "LISZT_DOUBLE = 2"
definition LISZT_BOOL :: byte where "LISZT_BOOL = 3"
definition LISZT_VEC_FLAG :: byte where "LISZT_VEC_FLAG = 1"
definition LISZT_MAT_FLAG :: byte where "LISZT_MAT_FLAG = 3"

text \<open>
  \<open>lMeshTypeSize\<close> returns \<open>sizeof(int)\<close>, \<open>sizeof(float)\<close>, \<open>sizeof(double)\<close> and
  \<open>sizeof(bool)\<close>. C++ leaves these to the implementation, so they are a parameter of
  the model: the sizes of the platform the header is compiled for.
\<close>

record Platform =
  sizeof_int :: nat
  sizeof_float :: nat
  sizeof_double :: nat
  sizeof_bool :: nat

definition lMeshTypeSize :: "Platform \<Rightarrow> byte \<Rightarrow> nat" where
  "lMeshTypeSize p typ =
     (if typ = LISZT_INT then sizeof_int p
      else if typ = LISZT_FLOAT then sizeof_float p
      else if typ = LISZT_DOUBLE then sizeof_double p
      else if typ = LISZT_BOOL then sizeof_bool p
      else 0)"

text \<open>
  Three platforms GCC targets: x86-64 (System V), 32-bit PowerPC Darwin, where GCC makes
  \<open>bool\<close> four bytes unless \<open>-mone-byte-bool\<close> is given, and AVR, where \<open>int\<close> is two
  bytes and \<open>double\<close> four.
\<close>

definition x86_64 :: Platform where
  "x86_64 = \<lparr>sizeof_int = 4, sizeof_float = 4, sizeof_double = 8, sizeof_bool = 1\<rparr>"

definition darwin_ppc32 :: Platform where
  "darwin_ppc32 = \<lparr>sizeof_int = 4, sizeof_float = 4, sizeof_double = 8, sizeof_bool = 4\<rparr>"

definition avr :: Platform where
  "avr = \<lparr>sizeof_int = 2, sizeof_float = 4, sizeof_double = 4, sizeof_bool = 1\<rparr>"

record LisztType =
  lt_type :: byte
  lt_flags :: byte
  lt_data0 :: byte
  lt_data1 :: byte

record FileField =
  ff_domain :: IOElemType_rep
  ff_range :: LisztType
  ff_nElems :: lsize_t
  ff_name :: file_ptr
  ff_data :: file_ptr

record FieldTableIndex =
  num_fields :: "32 word"
  field :: "FileField list"

section \<open>Layout of the packed structs\<close>

text \<open>
  Every struct of the header carries \<open>__attribute__((packed))\<close>: a member starts where the
  member before it ends. The declarations are transcribed as data, member by member, and
  \<open>sizeof\<close> and \<open>packed_layout\<close> compute sizes and member offsets from them. An array of
  length 0 is the flexible array member the header writes as \<open>field[0]\<close>. \<open>Enum\<close> is the
  enumeration \<open>IOElemType\<close>, whose enumerators all fit an \<open>int\<close>; GCC and Clang, the
  compilers that know the packed attribute, give it a 4-byte underlying type.
\<close>

datatype ctype = UInt32 | UInt64 | Char | Enum | Array ctype nat
  | Struct "(string \<times> ctype) list" | Union "(string \<times> ctype) list"

fun sizeof :: "ctype \<Rightarrow> nat" where
  "sizeof UInt32 = 4"
| "sizeof UInt64 = 8"
| "sizeof Char = 1"
| "sizeof Enum = 4"
| "sizeof (Array t n) = n * sizeof t"
| "sizeof (Struct fs) = sum_list (map (\<lambda>f. sizeof (snd f)) fs)"
| "sizeof (Union fs) = fold max (map (\<lambda>f. sizeof (snd f)) fs) 0"

text \<open>Member name, offset and size of each member of a packed struct, in order.\<close>

fun packed_layout :: "nat \<Rightarrow> (string \<times> ctype) list \<Rightarrow> (string \<times> nat \<times> nat) list" where
  "packed_layout off [] = []"
| "packed_layout off ((n, t) # fs) = (n, off, sizeof t) # packed_layout (off + sizeof t) fs"

definition file_ptr_t :: ctype where "file_ptr_t = UInt64"
definition lsize_t_t :: ctype where "lsize_t_t = UInt32"
definition id_t_t :: ctype where "id_t_t = UInt32"

definition LisztHeader_decl :: "(string \<times> ctype) list" where
  "LisztHeader_decl =
     [(''magic_number'', UInt32),
      (''nV'', lsize_t_t), (''nE'', lsize_t_t), (''nF'', lsize_t_t), (''nC'', lsize_t_t),
      (''nFE'', lsize_t_t), (''nBoundaries'', lsize_t_t),
      (''field_table_index'', file_ptr_t),
      (''facet_edge_table'', file_ptr_t),
      (''boundary_set_table'', file_ptr_t)]"

definition HalfFacet_decl :: "(string \<times> ctype) list" where
  "HalfFacet_decl = [(''cell'', id_t_t), (''vert'', id_t_t)]"

definition FileFacetEdge_decl :: "(string \<times> ctype) list" where
  "FileFacetEdge_decl =
     [(''face'', id_t_t), (''edge'', id_t_t), (''hf'', Array (Struct HalfFacet_decl) 2)]"

definition BoundarySet_decl :: "(string \<times> ctype) list" where
  "BoundarySet_decl =
     [(''type'', Enum),
      (''union0'', Union [(''start'', id_t_t), (''left_id'', lsize_t_t)]),
      (''union1'', Union [(''end'', id_t_t), (''right_id'', lsize_t_t)]),
      (''name_string'', file_ptr_t)]"

definition LisztType_decl :: "(string \<times> ctype) list" where
  "LisztType_decl = [(''type'', Char), (''flags'', Char), (''data'', Array Char 2)]"

definition FileField_decl :: "(string \<times> ctype) list" where
  "FileField_decl =
     [(''domain'', Enum), (''range'', Struct LisztType_decl), (''nElems'', lsize_t_t),
      (''name'', file_ptr_t), (''data'', file_ptr_t)]"

definition FieldTableIndex_decl :: "(string \<times> ctype) list" where
  "FieldTableIndex_decl = [(''num_fields'', UInt32), (''field'', Array (Struct FileField_decl) 0)]"

section \<open>Bytes of the records\<close>

text \<open>
  The file holds the records as they lie in memory. The header fixes no byte order for
  its integers: it is the host's, a parameter here. \<open>le_bytes n v\<close> are the \<open>n\<close> bytes of
  \<open>v\<close>, least significant first; the big-endian order is their reverse.
\<close>

datatype byte_order = LittleEndian | BigEndian

fun le_bytes :: "nat \<Rightarrow> nat \<Rightarrow> byte list" where
  "le_bytes 0 v = []"
| "le_bytes (Suc n) v = of_nat (v mod 256) # le_bytes n (v div 256)"

fun le_value :: "byte list \<Rightarrow> nat" where
  "le_value [] = 0"
| "le_value (b # bs) = unat b + 256 * le_value bs"

definition enc_uint :: "byte_order \<Rightarrow> nat \<Rightarrow> nat \<Rightarrow> byte list" where
  "enc_uint e n v = (case e of LittleEndian \<Rightarrow> le_bytes n v | BigEndian \<Rightarrow> rev (le_bytes n v))"

definition dec_uint :: "byte_order \<Rightarrow> byte list \<Rightarrow> nat" where
  "dec_uint e bs = (case e of LittleEndian \<Rightarrow> le_value bs | BigEndian \<Rightarrow> le_value (rev bs))"

definition enc_u32 :: "byte_order \<Rightarrow> 32 word \<Rightarrow> byte list" where
  "enc_u32 e w = enc_uint e 4 (unat w)"

definition dec_u32 :: "byte_order \<Rightarrow> byte list \<Rightarrow> 32 word" where
  "dec_u32 e bs = of_nat (dec_uint e bs)"

definition enc_u64 :: "byte_order \<Rightarrow> 64 word \<Rightarrow> byte list" where
  "enc_u64 e w = enc_uint e 8 (unat w)"

definition dec_u64 :: "byte_order \<Rightarrow> byte list \<Rightarrow> 64 word" where
  "dec_u64 e bs = of_nat (dec_uint e bs)"

text \<open>The bytes \<open>[off, off + len)\<close> of a byte list.\<close>

definition bytes_at :: "nat \<Rightarrow> nat \<Rightarrow> byte list \<Rightarrow> byte list" where
  "bytes_at off len bs = take len (drop off bs)"

definition LisztHeader_bytes :: "byte_order \<Rightarrow> LisztHeader \<Rightarrow> byte list" where
  "LisztHeader_bytes e h =
     enc_u32 e (magic_number h) @
     enc_u32 e (nV h) @ enc_u32 e (nE h) @ enc_u32 e (nF h) @ enc_u32 e (nC h) @
     enc_u32 e (nFE h) @ enc_u32 e (nBoundaries h) @
     enc_u64 e (field_table_index h) @
     enc_u64 e (facet_edge_table h) @
     enc_u64 e (boundary_set_table h)"

definition LisztHeader_of_bytes :: "byte_order \<Rightarrow> byte list \<Rightarrow> LisztHeader" where
  "LisztHeader_of_bytes e bs =
     \<lparr>magic_number = dec_u32 e (bytes_at 0 4 bs),
      nV = dec_u32 e (bytes_at 4 4 bs),
      nE = dec_u32 e (bytes_at 8 4 bs),
      nF = dec_u32 e (bytes_at 12 4 bs),
      nC = dec_u32 e (bytes_at 16 4 bs),
      nFE = dec_u32 e (bytes_at 20 4 bs),
      nBoundaries = dec_u32 e (bytes_at 24 4 bs),
      field_table_index = dec_u64 e (bytes_at 28 8 bs),
      facet_edge_table = dec_u64 e (bytes_at 36 8 bs),
      boundary_set_table = dec_u64 e (bytes_at 44 8 bs)\<rparr>"

definition HalfFacet_bytes :: "byte_order \<Rightarrow> HalfFacet \<Rightarrow> byte list" where
  "HalfFacet_bytes e h = enc_u32 e (cell h) @ enc_u32 e (vert h)"

definition HalfFacet_of_bytes :: "byte_order \<Rightarrow> byte list \<Rightarrow> HalfFacet" where
  "HalfFacet_of_bytes e bs =
     \<lparr>cell = dec_u32 e (bytes_at 0 4 bs), vert = dec_u32 e (bytes_at 4 4 bs)\<rparr>"

definition FileFacetEdge_bytes :: "byte_order \<Rightarrow> FileFacetEdge \<Rightarrow> byte list" where
  "FileFacetEdge_bytes e r =
     enc_u32 e (face r) @ enc_u32 e (edge r) @
     HalfFacet_bytes e (hf_0 r) @ HalfFacet_bytes e (hf_1 r)"

definition FileFacetEdge_of_bytes :: "byte_order \<Rightarrow> byte list \<Rightarrow> FileFacetEdge" where
  "FileFacetEdge_of_bytes e bs =
     \<lparr>face = dec_u32 e (bytes_at 0 4 bs),
      edge = dec_u32 e (bytes_at 4 4 bs),
      hf_0 = HalfFacet_of_bytes e (bytes_at 8 8 bs),
      hf_1 = HalfFacet_of_bytes e (bytes_at 16 8 bs)\<rparr>"

definition BoundarySet_bytes :: "byte_order \<Rightarrow> BoundarySet \<Rightarrow> byte list" where
  "BoundarySet_bytes e b =
     enc_u32 e (bs_type b) @ enc_u32 e (bs_union0 b) @ enc_u32 e (bs_union1 b) @
     enc_u64 e (name_string b)"

definition BoundarySet_of_bytes :: "byte_order \<Rightarrow> byte list \<Rightarrow> BoundarySet" where
  "BoundarySet_of_bytes e bs =
     \<lparr>bs_type = dec_u32 e (bytes_at 0 4 bs),
      bs_union0 = dec_u32 e (bytes_at 4 4 bs),
      bs_union1 = dec_u32 e (bytes_at 8 4 bs),
      name_string = dec_u64 e (bytes_at 12 8 bs)\<rparr>"

text \<open>A \<open>char\<close> member is one byte; an absent byte reads as 0.\<close>

definition le_byte :: "byte list \<Rightarrow> byte" where
  "le_byte bs = (case bs of [] \<Rightarrow> 0 | b # _ \<Rightarrow> b)"

definition LisztType_bytes :: "LisztType \<Rightarrow> byte list" where
  "LisztType_bytes t = [lt_type t, lt_flags t, lt_data0 t, lt_data1 t]"

definition LisztType_of_bytes :: "byte list \<Rightarrow> LisztType" where
  "LisztType_of_bytes bs =
     \<lparr>lt_type = le_byte (bytes_at 0 1 bs), lt_flags = le_byte (bytes_at 1 1 bs),
      lt_data0 = le_byte (bytes_at 2 1 bs), lt_data1 = le_byte (bytes_at 3 1 bs)\<rparr>"

definition FileField_bytes :: "byte_order \<Rightarrow> FileField \<Rightarrow> byte list" where
  "FileField_bytes e f =
     enc_u32 e (ff_domain f) @ LisztType_bytes (ff_range f) @ enc_u32 e (ff_nElems f) @
     enc_u64 e (ff_name f) @ enc_u64 e (ff_data f)"

definition FileField_of_bytes :: "byte_order \<Rightarrow> byte list \<Rightarrow> FileField" where
  "FileField_of_bytes e bs =
     \<lparr>ff_domain = dec_u32 e (bytes_at 0 4 bs),
      ff_range = LisztType_of_bytes (bytes_at 4 4 bs),
      ff_nElems = dec_u32 e (bytes_at 8 4 bs),
      ff_name = dec_u64 e (bytes_at 12 8 bs),
      ff_data = dec_u64 e (bytes_at 20 8 bs)\<rparr>"

section \<open>The codec\<close>

text \<open>
  The header declares the records only; the functions that read and write them are not
  part of it. They are modelled from the specification of the codec, over the records and
  byte images above. Each such definition says so.
\<close>

text \<open>Modelled from the spec: the error kinds of section 7 (the header declares no
  error type). \<open>ReferentialIntegrity\<close> and \<open>InvalidRange\<close> carry the index of the
  offending record.\<close>

datatype error = CorruptFile | Truncated | UnsupportedType
  | ReferentialIntegrity nat | InvalidRange nat

text \<open>Modelled from the spec: a bounds-checked slice of the file buffer (section 9), the
  only way the decoders read bytes.\<close>

definition slice :: "byte list \<Rightarrow> nat \<Rightarrow> nat \<Rightarrow> byte list option" where
  "slice buf off len = (if off + len \<le> length buf then Some (bytes_at off len buf) else None)"

text \<open>Modelled from the spec: the loop that decodes \<open>n\<close> fixed-size records starting at
  offset \<open>off\<close> (sections 4.4 to 4.6), record by record; the first record that does not
  lie in the file or that its decoder refuses ends the loop with that error. \<open>i\<close> is the
  index of the next record.\<close>

fun decodeRecords ::
  "nat \<Rightarrow> (nat \<Rightarrow> byte list \<Rightarrow> error + 'a) \<Rightarrow> byte list \<Rightarrow> nat \<Rightarrow> nat \<Rightarrow> nat \<Rightarrow> error + 'a list"
where
  "decodeRecords sz dec buf off i 0 = Inr []"
| "decodeRecords sz dec buf off i (Suc n) =
     (case slice buf (off + sz * i) sz of
        None \<Rightarrow> Inl Truncated
      | Some bs \<Rightarrow>
          (case dec i bs of
             Inl err \<Rightarrow> Inl err
           | Inr r \<Rightarrow>
               (case decodeRecords sz dec buf off (Suc i) n of
                  Inl err \<Rightarrow> Inl err
                | Inr rs \<Rightarrow> Inr (r # rs))))"

text \<open>Modelled from the spec: the loop that encodes a sequence of records, the first
  refused record ending it with that error.\<close>

fun encodeRecords :: "(nat \<Rightarrow> 'a \<Rightarrow> error + byte list) \<Rightarrow> nat \<Rightarrow> 'a list \<Rightarrow> error + byte list"
where
  "encodeRecords enc i [] = Inr []"
| "encodeRecords enc i (r # rs) =
     (case enc i r of
        Inl err \<Rightarrow> Inl err
      | Inr bs \<Rightarrow>
          (case encodeRecords enc (Suc i) rs of
             Inl err \<Rightarrow> Inl err
           | Inr rest \<Rightarrow> Inr (bs @ rest)))"

text \<open>Modelled from the spec: applying a fallible reader to each element of a list, the
  first error ending the pass.\<close>

fun mapE :: "('a \<Rightarrow> error + 'b) \<Rightarrow> 'a list \<Rightarrow> error + 'b list" where
  "mapE f [] = Inr []"
| "mapE f (x # xs) =
     (case f x of
        Inl err \<Rightarrow> Inl err
      | Inr y \<Rightarrow> (case mapE f xs of Inl err \<Rightarrow> Inl err | Inr ys \<Rightarrow> Inr (y # ys)))"

subsection \<open>TypeDescriptor codec\<close>

text \<open>Modelled from the spec: the three shapes of a TypeDescriptor (section 3).\<close>

datatype Shape = Scalar | Vector | Matrix

text \<open>Modelled from the spec: the shape a flags byte denotes (section 3): 0 scalar,
  \<open>LISZT_VEC_FLAG\<close> vector, \<open>LISZT_MAT_FLAG\<close> matrix; 2 is reserved and no other value is
  a shape.\<close>

definition shapeOf :: "byte \<Rightarrow> Shape option" where
  "shapeOf fl =
     (if fl = 0 then Some Scalar
      else if fl = LISZT_VEC_FLAG then Some Vector
      else if fl = LISZT_MAT_FLAG then Some Matrix
      else None)"

text \<open>Modelled from the spec: the four recognized base kinds (section 3).\<close>

definition recognizedKind :: "byte \<Rightarrow> bool" where
  "recognizedKind typ =
     (typ = LISZT_INT \<or> typ = LISZT_FLOAT \<or> typ = LISZT_DOUBLE \<or> typ = LISZT_BOOL)"

text \<open>Modelled from the spec: the multiplicity of a shape (section 4.1): 1 for a scalar,
  shape-dim[0] for a vector, shape-dim[0] times shape-dim[1] for a matrix. The two
  dimension bytes are read as unsigned.\<close>

definition multiplicity :: "Shape \<Rightarrow> LisztType \<Rightarrow> nat" where
  "multiplicity sh t =
     (case sh of
        Scalar \<Rightarrow> 1
      | Vector \<Rightarrow> unat (lt_data0 t)
      | Matrix \<Rightarrow> unat (lt_data0 t) * unat (lt_data1 t))"

text \<open>Modelled from the spec: \<open>elementByteSize\<close> (section 4.1), the base-kind size, which
  the header's \<open>lMeshTypeSize\<close> computes, times the multiplicity. An unrecognized base
  kind and a flags byte that is no shape are refused with \<open>UnsupportedType\<close>.\<close>

definition elementByteSize :: "Platform \<Rightarrow> LisztType \<Rightarrow> error + nat" where
  "elementByteSize p t =
     (if \<not> recognizedKind (lt_type t) then Inl UnsupportedType
      else case shapeOf (lt_flags t) of
             None \<Rightarrow> Inl UnsupportedType
           | Some sh \<Rightarrow> Inr (lMeshTypeSize p (lt_type t) * multiplicity sh t))"

text \<open>Modelled from the spec: \<open>decode\<close> of the TypeDescriptor codec (section 4.1), from
  the raw 4 bytes of a \<open>LisztType\<close>.\<close>

definition decodeTypeDescriptor :: "byte list \<Rightarrow> error + LisztType" where
  "decodeTypeDescriptor bs =
     (if length bs \<noteq> 4 then Inl UnsupportedType
      else let t = LisztType_of_bytes bs in
        if \<not> recognizedKind (lt_type t) then Inl UnsupportedType
        else case shapeOf (lt_flags t) of
               None \<Rightarrow> Inl UnsupportedType
             | Some sh \<Rightarrow> Inr t)"

subsection \<open>Header codec\<close>

text \<open>Modelled from the spec: \<open>decodeHeader\<close> (section 4.2). The magic number is
  checked first, from the first four bytes alone; then the header is read and each of
  the three table offsets must be at least the header size and at most the file length
  (section 8). Every failure is \<open>CorruptFile\<close>.\<close>

definition decodeHeader :: "byte_order \<Rightarrow> byte list \<Rightarrow> error + LisztHeader" where
  "decodeHeader e buf =
     (case slice buf 0 4 of
        None \<Rightarrow> Inl CorruptFile
      | Some m \<Rightarrow>
          if dec_u32 e m \<noteq> LISZT_MAGIC_NUMBER then Inl CorruptFile
          else
            (case slice buf 0 (sizeof (Struct LisztHeader_decl)) of
               None \<Rightarrow> Inl CorruptFile
             | Some hb \<Rightarrow>
                 let h = LisztHeader_of_bytes e hb in
                 if list_all
                      (\<lambda>off. sizeof (Struct LisztHeader_decl) \<le> unat off \<and> unat off \<le> length buf)
                      [field_table_index h, facet_edge_table h, boundary_set_table h]
                 then Inr h
                 else Inl CorruptFile))"

text \<open>Modelled from the spec: \<open>encodeHeader\<close> (section 4.2) writes the fields packed, in
  the declared order: the byte image of the struct.\<close>

definition encodeHeader :: "byte_order \<Rightarrow> LisztHeader \<Rightarrow> byte list" where
  "encodeHeader e h = LisztHeader_bytes e h"

subsection \<open>Facet-edge table codec\<close>

text \<open>Modelled from the spec: the four bounds of a facet-edge record (section 3): each
  cell id below \<open>nC\<close>, each vertex id below \<open>nV\<close>, the face id below \<open>nF\<close>, the edge id
  below \<open>nE\<close>.\<close>

definition facetEdgeInBounds :: "LisztHeader \<Rightarrow> FileFacetEdge \<Rightarrow> bool" where
  "facetEdgeInBounds h r =
     (cell (hf_0 r) < nC h \<and> cell (hf_1 r) < nC h \<and>
      vert (hf_0 r) < nV h \<and> vert (hf_1 r) < nV h \<and>
      face r < nF h \<and> edge r < nE h)"

text \<open>Modelled from the spec: decoding one facet-edge record (section 4.4).\<close>

definition decodeFacetEdge :: "byte_order \<Rightarrow> LisztHeader \<Rightarrow> nat \<Rightarrow> byte list \<Rightarrow> error + FileFacetEdge"
where
  "decodeFacetEdge e h i bs =
     (let r = FileFacetEdge_of_bytes e bs in
      if facetEdgeInBounds h r then Inr r else Inl (ReferentialIntegrity i))"

text \<open>Modelled from the spec: \<open>decodeFacetEdges\<close> (section 4.4). The counts the ids are
  checked against come with the header.\<close>

definition decodeFacetEdges ::
  "byte_order \<Rightarrow> LisztHeader \<Rightarrow> byte list \<Rightarrow> nat \<Rightarrow> nat \<Rightarrow> error + FileFacetEdge list"
where
  "decodeFacetEdges e h buf off n =
     decodeRecords (sizeof (Struct FileFacetEdge_decl)) (decodeFacetEdge e h) buf off 0 n"

text \<open>Modelled from the spec: encoding one facet-edge record (section 4.4), with the
  same bound checks as the decoder.\<close>

definition encodeFacetEdge :: "byte_order \<Rightarrow> LisztHeader \<Rightarrow> nat \<Rightarrow> FileFacetEdge \<Rightarrow> error + byte list"
where
  "encodeFacetEdge e h i r =
     (if facetEdgeInBounds h r then Inr (FileFacetEdge_bytes e r)
      else Inl (ReferentialIntegrity i))"

text \<open>Modelled from the spec: \<open>encodeFacetEdges\<close> (section 4.4).\<close>

definition encodeFacetEdges ::
  "byte_order \<Rightarrow> LisztHeader \<Rightarrow> FileFacetEdge list \<Rightarrow> error + byte list"
where
  "encodeFacetEdges e h rs = encodeRecords (encodeFacetEdge e h) 0 rs"

subsection \<open>Boundary-set table codec\<close>

text \<open>Modelled from the spec: whether a type tag has the aggregate flag set
  (section 3).\<close>

definition isAggregate :: "IOElemType_rep \<Rightarrow> bool" where
  "isAggregate t = (t AND IOElemType_val AGG_FLAG \<noteq> 0)"

text \<open>Modelled from the spec: the two interpretations of a boundary set's range
  (section 3): a direct id interval, or an indirect span of a side table.\<close>

datatype BoundaryRange = DirectRange id_t id_t | IndirectRange lsize_t lsize_t

text \<open>Modelled from the spec: a decoded boundary set (section 4.5), its name still an
  offset into the file.\<close>

record BoundarySetDescriptor =
  bsd_type :: IOElemType_rep
  bsd_range :: BoundaryRange
  bsd_name :: file_ptr

text \<open>Modelled from the spec: decoding one boundary-set record (section 4.5): the
  aggregate flag of the type tag selects the interpretation, and a range whose start
  exceeds its end is refused.\<close>

definition decodeBoundarySet :: "byte_order \<Rightarrow> nat \<Rightarrow> byte list \<Rightarrow> error + BoundarySetDescriptor"
where
  "decodeBoundarySet e i bs =
     (let b = BoundarySet_of_bytes e bs in
      if isAggregate (bs_type b) then
        (if bs_left_id b \<le> bs_right_id b
         then Inr \<lparr>bsd_type = bs_type b,
                   bsd_range = IndirectRange (bs_left_id b) (bs_right_id b),
                   bsd_name = name_string b\<rparr>
         else Inl (InvalidRange i))
      else
        (if bs_start b \<le> bs_end b
         then Inr \<lparr>bsd_type = bs_type b,
                   bsd_range = DirectRange (bs_start b) (bs_end b),
                   bsd_name = name_string b\<rparr>
         else Inl (InvalidRange i)))"

text \<open>Modelled from the spec: \<open>decodeBoundarySets\<close> (section 4.5).\<close>

definition decodeBoundarySets ::
  "byte_order \<Rightarrow> byte list \<Rightarrow> nat \<Rightarrow> nat \<Rightarrow> error + BoundarySetDescriptor list"
where
  "decodeBoundarySets e buf off n =
     decodeRecords (sizeof (Struct BoundarySet_decl)) (decodeBoundarySet e) buf off 0 n"

text \<open>Modelled from the spec: a range is consistent with a type tag (sections 3 and
  4.5) when it is of the interpretation the aggregate flag selects and its start is at
  most its end.\<close>

definition consistentRange :: "IOElemType_rep \<Rightarrow> BoundaryRange \<Rightarrow> bool" where
  "consistentRange t r =
     (case r of
        DirectRange s t' \<Rightarrow> \<not> isAggregate t \<and> s \<le> t'
      | IndirectRange l r' \<Rightarrow> isAggregate t \<and> l \<le> r')"

text \<open>Modelled from the spec: the file record of a boundary set (section 4.5): the
  union branch that matches the range is written.\<close>

definition boundarySetRecord :: "BoundarySetDescriptor \<Rightarrow> BoundarySet" where
  "boundarySetRecord d =
     (let b0 = \<lparr>bs_type = bsd_type d, bs_union0 = 0, bs_union1 = 0, name_string = bsd_name d\<rparr>
      in case bsd_range d of
           DirectRange s t \<Rightarrow> set_end t (set_start s b0)
         | IndirectRange l r \<Rightarrow> set_right_id r (set_left_id l b0))"

text \<open>Modelled from the spec: encoding one boundary set (section 4.5); a range that is
  not consistent with the type tag is refused with \<open>InvalidRange\<close>.\<close>

definition encodeBoundarySet :: "byte_order \<Rightarrow> nat \<Rightarrow> BoundarySetDescriptor \<Rightarrow> error + byte list"
where
  "encodeBoundarySet e i d =
     (if consistentRange (bsd_type d) (bsd_range d)
      then Inr (BoundarySet_bytes e (boundarySetRecord d))
      else Inl (InvalidRange i))"

text \<open>Modelled from the spec: \<open>encodeBoundarySets\<close> (section 4.5).\<close>

definition encodeBoundarySets :: "byte_order \<Rightarrow> BoundarySetDescriptor list \<Rightarrow> error + byte list"
where
  "encodeBoundarySets e ds = encodeRecords (encodeBoundarySet e) 0 ds"

text \<open>Modelled from the spec: the reader of a null-terminated string (section 4.6): the
  bytes from the offset up to the first terminator, \<open>Truncated\<close> if the file ends before
  one.\<close>

definition readCString :: "byte list \<Rightarrow> nat \<Rightarrow> error + byte list" where
  "readCString buf off =
     (let rest = drop off buf; s = takeWhile (\<lambda>b. b \<noteq> 0) rest
      in if length s < length rest then Inr s else Inl Truncated)"

text \<open>Modelled from the spec: \<open>decodeBoundaryName\<close> (section 4.6).\<close>

definition decodeBoundaryName :: "byte list \<Rightarrow> BoundarySetDescriptor \<Rightarrow> error + byte list" where
  "decodeBoundaryName buf d = readCString buf (unat (bsd_name d))"

subsection \<open>Field table codec\<close>

text \<open>Modelled from the spec: decoding one field descriptor (section 4.6): the range is
  decoded as a TypeDescriptor, and the data block, of length \<open>nElems\<close> times the element
  byte size, must lie in the file; it is not read.\<close>

definition decodeFieldDescriptor ::
  "Platform \<Rightarrow> byte_order \<Rightarrow> nat \<Rightarrow> nat \<Rightarrow> byte list \<Rightarrow> error + FileField"
where
  "decodeFieldDescriptor p e buflen i bs =
     (let f = FileField_of_bytes e bs in
      case decodeTypeDescriptor (bytes_at 4 4 bs) of
        Inl err \<Rightarrow> Inl err
      | Inr t \<Rightarrow>
          (case elementByteSize p t of
             Inl err \<Rightarrow> Inl err
           | Inr sz \<Rightarrow>
               if unat (ff_data f) + unat (ff_nElems f) * sz \<le> buflen then Inr f
               else Inl Truncated))"

text \<open>Modelled from the spec: \<open>decodeFieldTable\<close> (section 4.6): a leading count, then
  that many descriptors.\<close>

definition decodeFieldTable ::
  "Platform \<Rightarrow> byte_order \<Rightarrow> byte list \<Rightarrow> nat \<Rightarrow> error + FileField list"
where
  "decodeFieldTable p e buf off =
     (case slice buf off (sizeof (Struct FieldTableIndex_decl)) of
        None \<Rightarrow> Inl Truncated
      | Some cb \<Rightarrow>
          decodeRecords (sizeof (Struct FileField_decl))
            (decodeFieldDescriptor p e (length buf)) buf
            (off + sizeof (Struct FieldTableIndex_decl)) 0 (unat (dec_u32 e cb)))"

text \<open>Modelled from the spec: encoding one field descriptor, its range checked as the
  decoder checks it.\<close>

definition encodeFieldDescriptor ::
  "Platform \<Rightarrow> byte_order \<Rightarrow> nat \<Rightarrow> FileField \<Rightarrow> error + byte list"
where
  "encodeFieldDescriptor p e i f =
     (case elementByteSize p (ff_range f) of
        Inl err \<Rightarrow> Inl err
      | Inr sz \<Rightarrow> Inr (FileField_bytes e f))"

text \<open>Modelled from the spec: encoding the field table index: the count, then the
  descriptors.\<close>

definition encodeFieldTable :: "Platform \<Rightarrow> byte_order \<Rightarrow> FieldTableIndex \<Rightarrow> error + byte list"
where
  "encodeFieldTable p e t =
     (case encodeRecords (encodeFieldDescriptor p e) 0 (field t) of
        Inl err \<Rightarrow> Inl err
      | Inr bs \<Rightarrow> Inr (enc_u32 e (num_fields t) @ bs))"

text \<open>Modelled from the spec: \<open>readFieldData\<close> (section 4.6), the bulk read of a field's
  data block.\<close>

definition readFieldData :: "Platform \<Rightarrow> byte list \<Rightarrow> FileField \<Rightarrow> error + byte list" where
  "readFieldData p buf f =
     (case elementByteSize p (ff_range f) of
        Inl err \<Rightarrow> Inl err
      | Inr sz \<Rightarrow>
          (case slice buf (unat (ff_data f)) (unat (ff_nElems f) * sz) of
             None \<Rightarrow> Inl Truncated
           | Some d \<Rightarrow> Inr d))"

text \<open>Modelled from the spec: \<open>decodeFieldName\<close> (section 4.6).\<close>

definition decodeFieldName :: "byte list \<Rightarrow> FileField \<Rightarrow> error + byte list" where
  "decodeFieldName buf f = readCString buf (unat (ff_name f))"

subsection \<open>Mesh file orchestrator\<close>

text \<open>Modelled from the spec: a boundary set in memory (section 3): type tag, range and
  name.\<close>

record MeshBoundarySet =
  mbs_type :: IOElemType_rep
  mbs_range :: BoundaryRange
  mbs_name :: "byte list"

text \<open>Modelled from the spec: a field in memory (section 3): domain, range type, element
  count, name and data bytes.\<close>

record MeshField =
  mfd_domain :: IOElemType_rep
  mfd_range :: LisztType
  mfd_nElems :: lsize_t
  mfd_name :: "byte list"
  mfd_data :: "byte list"

text \<open>Modelled from the spec: the mesh in memory, what \<open>writeMesh\<close> takes and \<open>readMesh\<close>
  returns (section 6): the element counts, the facet-edge records, the boundary sets and
  the fields. The counts \<open>nFE\<close> and \<open>nBoundaries\<close> of the file header are the lengths of
  the two sequences.\<close>

record MeshFile =
  mf_nV :: lsize_t
  mf_nE :: lsize_t
  mf_nF :: lsize_t
  mf_nC :: lsize_t
  mf_facetEdges :: "FileFacetEdge list"
  mf_boundarySets :: "MeshBoundarySet list"
  mf_fields :: "MeshField list"

text \<open>Modelled from the spec: a name as it is stored, with its terminator
  (section 4.6).\<close>

definition cstring :: "byte list \<Rightarrow> byte list" where
  "cstring s = s @ [0]"

text \<open>Modelled from the spec: step 2 of the write path (section 4.7) for the boundary
  sets: each name is given the next offset of the name region.\<close>

fun layoutBoundarySets :: "nat \<Rightarrow> MeshBoundarySet list \<Rightarrow> BoundarySetDescriptor list" where
  "layoutBoundarySets noff [] = []"
| "layoutBoundarySets noff (b # bs) =
     \<lparr>bsd_type = mbs_type b, bsd_range = mbs_range b, bsd_name = of_nat noff\<rparr>
       # layoutBoundarySets (noff + length (cstring (mbs_name b))) bs"

text \<open>Modelled from the spec: step 2 of the write path (section 4.7) for the fields:
  each name is given the next offset of the name region, each data block the next offset
  of the data region.\<close>

fun layoutFields :: "nat \<Rightarrow> nat \<Rightarrow> MeshField list \<Rightarrow> FileField list" where
  "layoutFields noff doff [] = []"
| "layoutFields noff doff (f # fs) =
     \<lparr>ff_domain = mfd_domain f, ff_range = mfd_range f, ff_nElems = mfd_nElems f,
      ff_name = of_nat noff, ff_data = of_nat doff\<rparr>
       # layoutFields (noff + length (cstring (mfd_name f))) (doff + length (mfd_data f)) fs"

text \<open>Modelled from the spec: the names of the boundary sets as stored, one after the
  other (section 4.7, the name-string region).\<close>

definition boundaryNames :: "MeshFile \<Rightarrow> byte list" where
  "boundaryNames M = concat (map (\<lambda>b. cstring (mbs_name b)) (mf_boundarySets M))"

text \<open>Modelled from the spec: the names of the fields as stored, after those of the
  boundary sets (section 4.7, the name-string region).\<close>

definition fieldNames :: "MeshFile \<Rightarrow> byte list" where
  "fieldNames M = concat (map (\<lambda>f. cstring (mfd_name f)) (mf_fields M))"

text \<open>Modelled from the spec: the data blocks of the fields, one after the other
  (section 4.7, the field data blocks).\<close>

definition fieldData :: "MeshFile \<Rightarrow> byte list" where
  "fieldData M = concat (map mfd_data (mf_fields M))"

text \<open>Modelled from the spec: steps 1 and 2 of the write path (section 4.7): the sizes of
  the tables and the offsets assigned in sequence: header, facet-edge table, boundary-set
  table, field table index, names, field data last. The facet-edge table follows the
  header.\<close>

definition off_facetEdges :: "MeshFile \<Rightarrow> nat" where
  "off_facetEdges M = sizeof (Struct LisztHeader_decl)"

text \<open>Modelled from the spec: the boundary-set table follows the facet-edge table
  (section 4.7).\<close>

definition off_boundarySets :: "MeshFile \<Rightarrow> nat" where
  "off_boundarySets M =
     off_facetEdges M + sizeof (Struct FileFacetEdge_decl) * length (mf_facetEdges M)"

text \<open>Modelled from the spec: the field table index follows the boundary-set table
  (section 4.7).\<close>

definition off_fieldTable :: "MeshFile \<Rightarrow> nat" where
  "off_fieldTable M =
     off_boundarySets M + sizeof (Struct BoundarySet_decl) * length (mf_boundarySets M)"

text \<open>Modelled from the spec: the names follow the field table index and its
  descriptors (section 4.7).\<close>

definition off_boundaryNames :: "MeshFile \<Rightarrow> nat" where
  "off_boundaryNames M =
     off_fieldTable M + sizeof (Struct FieldTableIndex_decl)
       + sizeof (Struct FileField_decl) * length (mf_fields M)"

text \<open>Modelled from the spec: the field names follow the boundary names
  (section 4.7).\<close>

definition off_fieldNames :: "MeshFile \<Rightarrow> nat" where
  "off_fieldNames M = off_boundaryNames M + length (boundaryNames M)"

text \<open>Modelled from the spec: the field data blocks come last (section 4.7).\<close>

definition off_fieldData :: "MeshFile \<Rightarrow> nat" where
  "off_fieldData M = off_fieldNames M + length (fieldNames M)"

text \<open>Modelled from the spec: the length of the file \<open>writeMesh\<close> produces
  (section 4.7).\<close>

definition fileSize :: "MeshFile \<Rightarrow> nat" where
  "fileSize M = off_fieldData M + length (fieldData M)"

text \<open>Modelled from the spec: the header \<open>writeMesh\<close> writes (section 4.7, step 4).\<close>

definition meshHeader :: "MeshFile \<Rightarrow> LisztHeader" where
  "meshHeader M =
     \<lparr>magic_number = LISZT_MAGIC_NUMBER,
      nV = mf_nV M, nE = mf_nE M, nF = mf_nF M, nC = mf_nC M,
      nFE = of_nat (length (mf_facetEdges M)),
      nBoundaries = of_nat (length (mf_boundarySets M)),
      field_table_index = of_nat (off_fieldTable M),
      facet_edge_table = of_nat (off_facetEdges M),
      boundary_set_table = of_nat (off_boundarySets M)\<rparr>"

text \<open>Modelled from the spec: \<open>writeMesh\<close> (sections 4.7 and 6). The tables are encoded
  with the assigned offsets, an encoder's error is the result, and the regions are laid
  out in the assigned order.\<close>

definition writeMesh :: "Platform \<Rightarrow> byte_order \<Rightarrow> MeshFile \<Rightarrow> error + byte list" where
  "writeMesh p e M =
     (let h = meshHeader M;
          bsds = layoutBoundarySets (off_boundaryNames M) (mf_boundarySets M);
          ffs = layoutFields (off_fieldNames M) (off_fieldData M) (mf_fields M)
      in case encodeFacetEdges e h (mf_facetEdges M) of
           Inl err \<Rightarrow> Inl err
         | Inr fe \<Rightarrow>
             (case encodeBoundarySets e bsds of
                Inl err \<Rightarrow> Inl err
              | Inr bs \<Rightarrow>
                  (case encodeFieldTable p e
                          \<lparr>num_fields = of_nat (length (mf_fields M)), field = ffs\<rparr> of
                     Inl err \<Rightarrow> Inl err
                   | Inr ft \<Rightarrow>
                       Inr (encodeHeader e h @ fe @ bs @ ft @
                            boundaryNames M @ fieldNames M @ fieldData M))))"

text \<open>Modelled from the spec: the boundary set in memory, from a decoded descriptor:
  the name is read from the file through the on-demand reader of section 4.6.\<close>

definition resolveBoundarySet :: "byte list \<Rightarrow> BoundarySetDescriptor \<Rightarrow> error + MeshBoundarySet"
where
  "resolveBoundarySet buf d =
     (case decodeBoundaryName buf d of
        Inl err \<Rightarrow> Inl err
      | Inr s \<Rightarrow> Inr \<lparr>mbs_type = bsd_type d, mbs_range = bsd_range d, mbs_name = s\<rparr>)"

text \<open>Modelled from the spec: the field in memory, from a decoded descriptor: the name
  and the data are read from the file through the on-demand readers of section 4.6.\<close>

definition resolveField :: "Platform \<Rightarrow> byte list \<Rightarrow> FileField \<Rightarrow> error + MeshField" where
  "resolveField p buf f =
     (case decodeFieldName buf f of
        Inl err \<Rightarrow> Inl err
      | Inr s \<Rightarrow>
          (case readFieldData p buf f of
             Inl err \<Rightarrow> Inl err
           | Inr d \<Rightarrow>
               Inr \<lparr>mfd_domain = ff_domain f, mfd_range = ff_range f,
                    mfd_nElems = ff_nElems f, mfd_name = s, mfd_data = d\<rparr>))"

text \<open>Modelled from the spec: \<open>readMesh\<close> (sections 4.7 and 6): the header, then the
  three tables, each at the offset the header gives; no table is returned unless all
  decode.\<close>

definition readMesh :: "Platform \<Rightarrow> byte_order \<Rightarrow> byte list \<Rightarrow> error + MeshFile" where
  "readMesh p e buf =
     (case decodeHeader e buf of
        Inl err \<Rightarrow> Inl err
      | Inr h \<Rightarrow>
     (case decodeFacetEdges e h buf (unat (facet_edge_table h)) (unat (nFE h)) of
        Inl err \<Rightarrow> Inl err
      | Inr fes \<Rightarrow>
     (case decodeBoundarySets e buf (unat (boundary_set_table h)) (unat (nBoundaries h)) of
        Inl err \<Rightarrow> Inl err
      | Inr bsds \<Rightarrow>
     (case decodeFieldTable p e buf (unat (field_table_index h)) of
        Inl err \<Rightarrow> Inl err
      | Inr ffs \<Rightarrow>
     (case mapE (resolveBoundarySet buf) bsds of
        Inl err \<Rightarrow> Inl err
      | Inr bss \<Rightarrow>
     (case mapE (resolveField p buf) ffs of
        Inl err \<Rightarrow> Inl err
      | Inr fs \<Rightarrow>
          Inr \<lparr>mf_nV = nV h, mf_nE = nE h, mf_nF = nF h, mf_nC = nC h,
               mf_facetEdges = fes, mf_boundarySets = bss, mf_fields = fs\<rparr>))))))"

text \<open>Modelled from the spec: a valid boundary set in memory (section 3): its range of
  the interpretation its flag selects, with start at most end, and its name without a
  terminator inside.\<close>

definition validBoundarySet :: "MeshBoundarySet \<Rightarrow> bool" where
  "validBoundarySet b = (consistentRange (mbs_type b) (mbs_range b) \<and> 0 \<notin> set (mbs_name b))"

text \<open>Modelled from the spec: a valid field in memory (sections 3 and 4.6): of a
  supported type, its data of length \<open>nElems\<close> times the element byte size, and its name
  without a terminator inside.\<close>

definition validField :: "Platform \<Rightarrow> MeshField \<Rightarrow> bool" where
  "validField p f =
     ((case elementByteSize p (mfd_range f) of
         Inl err \<Rightarrow> False
       | Inr sz \<Rightarrow> length (mfd_data f) = unat (mfd_nElems f) * sz) \<and>
      0 \<notin> set (mfd_name f))"

text \<open>Modelled from the spec: a valid mesh in memory (section 3): every facet-edge id
  below its count, every boundary set and every field valid, and counts and offsets that
  fit their 32-bit and 64-bit fields.\<close>

definition validMesh :: "Platform \<Rightarrow> MeshFile \<Rightarrow> bool" where
  "validMesh p M =
     (list_all (facetEdgeInBounds (meshHeader M)) (mf_facetEdges M) \<and>
      list_all validBoundarySet (mf_boundarySets M) \<and>
      list_all (validField p) (mf_fields M) \<and>
      length (mf_facetEdges M) < 2 ^ 32 \<and>
      length (mf_boundarySets M) < 2 ^ 32 \<and>
      length (mf_fields M) < 2 ^ 32 \<and>
      fileSize M < 2 ^ 64)"

section \<open>Example data\<close>

text \<open>A small mesh in memory, with one facet-edge record, a direct and an indirect
  boundary set, and one field of one vector of three doubles (24 bytes on x86-64).\<close>

definition exampleMesh :: MeshFile where
  "exampleMesh =
     \<lparr>mf_nV = 4, mf_nE = 6, mf_nF = 4, mf_nC = 2,
      mf_facetEdges =
        [\<lparr>face = 1, edge = 2, hf_0 = \<lparr>cell = 0, vert = 3\<rparr>, hf_1 = \<lparr>cell = 1, vert = 2\<rparr>\<rparr>],
      mf_boundarySets =
        [\<lparr>mbs_type = 3, mbs_range = DirectRange 1 3, mbs_name = [97, 98]\<rparr>,
         \<lparr>mbs_type = 130, mbs_range = IndirectRange 0 0, mbs_name = []\<rparr>],
      mf_fields =
        [\<lparr>mfd_domain = 0,
          mfd_range = \<lparr>lt_type = 2, lt_flags = 1, lt_data0 = 3, lt_data1 = 0\<rparr>,
          mfd_nElems = 1, mfd_name = [112],
          mfd_data = [1, 2, 3, 4, 5, 6, 7, 8, 9, 10, 11, 12, 13, 14, 15, 16, 17, 18, 19, 20,
                      21, 22, 23, 24]\<rparr>]\<rparr>"

text \<open>A header with the counts of the example mesh.\<close>

definition exampleHeader :: LisztHeader where
  "exampleHeader =
     \<lparr>magic_number = LISZT_MAGIC_NUMBER, nV = 4, nE = 6, nF = 4, nC = 2, nFE = 2,
      nBoundaries = 0, field_table_index = 100, facet_edge_table = 52,
      boundary_set_table = 100\<rparr>"

text \<open>Two raw facet-edge records in little-endian order: the first within the counts of
  the example header, the second with the cell id of its second half-facet equal to
  \<open>nC\<close>.\<close>

definition goodRecord :: "byte list" where
  "goodRecord = [1,0,0,0, 2,0,0,0, 0,0,0,0, 3,0,0,0, 1,0,0,0, 2,0,0,0]"

definition badRecord :: "byte list" where
  "badRecord = [1,0,0,0, 2,0,0,0, 0,0,0,0, 3,0,0,0, 2,0,0,0, 2,0,0,0]"

text \<open>The bytes of the example header with the first byte of the magic number
  changed.\<close>

definition badMagicBuffer :: "byte list" where
  "badMagicBuffer = [0x23, 0x10, 0x11, 0x18] @ drop 4 (LisztHeader_bytes LittleEndian exampleHeader)"

section \<open>Bytes and records: basic facts\<close>

lemma length_le_bytes [simp]: "length (le_bytes n v) = n"
  by (induction n arbitrary: v) auto

lemma le_value_le_bytes: "le_value (le_bytes n v) = v mod 256 ^ n"
proof (induction n arbitrary: v)
  case 0
  show ?case by simp
next
  case (Suc n)
  have "unat (of_nat (v mod 256) :: byte) = v mod 256"
    by (simp add: unat_of_nat)
  then have "le_value (le_bytes (Suc n) v) = v mod 256 + 256 * ((v div 256) mod 256 ^ n)"
    by (simp add: Suc.IH)
  also have "\<dots> = v mod 256 ^ Suc n"
    by (simp add: mod_mult2_eq)
  finally show ?case .
qed

lemma le_value_bound: "le_value bs < 256 ^ length bs"
proof (induction bs)
  case Nil
  show ?case by simp
next
  case (Cons b bs)
  have "unat b < 256" using unsigned_less [of b, where ?'a = nat] by simp
  with Cons show ?case by simp
qed

lemma le_bytes_le_value: "le_bytes (length bs) (le_value bs) = bs"
proof (induction bs)
  case Nil
  show ?case by simp
next
  case (Cons b bs)
  have b: "unat b < 256" using unsigned_less [of b, where ?'a = nat] by simp
  then have "(unat b + 256 * le_value bs) mod 256 = unat b"
    and "(unat b + 256 * le_value bs) div 256 = le_value bs"
    by simp_all
  with Cons show ?case by simp
qed

lemma length_enc_uint [simp]: "length (enc_uint e n v) = n"
  by (cases e) (simp_all add: enc_uint_def)

lemma dec_enc_uint: "v < 256 ^ n \<Longrightarrow> dec_uint e (enc_uint e n v) = v"
  by (cases e) (simp_all add: enc_uint_def dec_uint_def le_value_le_bytes)

lemma enc_dec_uint: "enc_uint e (length bs) (dec_uint e bs) = bs"
proof (cases e)
  case LittleEndian
  then show ?thesis by (simp add: enc_uint_def dec_uint_def le_bytes_le_value)
next
  case BigEndian
  have "le_bytes (length (rev bs)) (le_value (rev bs)) = rev bs"
    by (rule le_bytes_le_value)
  with BigEndian show ?thesis by (simp add: enc_uint_def dec_uint_def)
qed

lemma length_enc_u32 [simp]: "length (enc_u32 e w) = 4"
  by (simp add: enc_u32_def)

lemma length_enc_u64 [simp]: "length (enc_u64 e w) = 8"
  by (simp add: enc_u64_def)

lemma dec_enc_u32 [simp]: "dec_u32 e (enc_u32 e w) = w"
proof -
  have "unat w < 256 ^ 4" using unsigned_less [of w, where ?'a = nat] by simp
  then show ?thesis by (simp add: dec_u32_def enc_u32_def dec_enc_uint)
qed

lemma dec_enc_u64 [simp]: "dec_u64 e (enc_u64 e w) = w"
proof -
  have "unat w < 256 ^ 8" using unsigned_less [of w, where ?'a = nat] by simp
  then show ?thesis by (simp add: dec_u64_def enc_u64_def dec_enc_uint)
qed

lemma enc_dec_u32: "length bs = 4 \<Longrightarrow> enc_u32 e (dec_u32 e bs) = bs"
proof -
  assume len: "length bs = 4"
  have "dec_uint e bs < 256 ^ 4"
    using le_value_bound [of bs] le_value_bound [of "rev bs"] len
    by (cases e) (simp_all add: dec_uint_def)
  then have "unat (of_nat (dec_uint e bs) :: 32 word) = dec_uint e bs"
    by (simp add: unat_of_nat)
  then show ?thesis
    using enc_dec_uint [of e bs] len by (simp add: enc_u32_def dec_u32_def)
qed

lemma bytes_at_0_append [simp]: "length a = n \<Longrightarrow> bytes_at 0 n (a @ b) = a"
  by (simp add: bytes_at_def)

lemma bytes_at_0_all [simp]: "length a = n \<Longrightarrow> bytes_at 0 n a = a"
  by (simp add: bytes_at_def)

lemma bytes_at_append [simp]:
  "length a \<le> off \<Longrightarrow> bytes_at off n (a @ b) = bytes_at (off - length a) n b"
  by (simp add: bytes_at_def)

lemma length_bytes_at: "off + n \<le> length bs \<Longrightarrow> length (bytes_at off n bs) = n"
  by (simp add: bytes_at_def)

lemma length_LisztHeader_bytes [simp]: "length (LisztHeader_bytes e h) = 52"
  by (simp add: LisztHeader_bytes_def)

lemma LisztHeader_of_bytes_bytes [simp]: "LisztHeader_of_bytes e (LisztHeader_bytes e h) = h"
  by (simp add: LisztHeader_of_bytes_def LisztHeader_bytes_def)

lemma length_HalfFacet_bytes [simp]: "length (HalfFacet_bytes e h) = 8"
  by (simp add: HalfFacet_bytes_def)

lemma HalfFacet_of_bytes_bytes [simp]: "HalfFacet_of_bytes e (HalfFacet_bytes e h) = h"
  by (simp add: HalfFacet_of_bytes_def HalfFacet_bytes_def)

lemma length_FileFacetEdge_bytes [simp]: "length (FileFacetEdge_bytes e r) = 24"
  by (simp add: FileFacetEdge_bytes_def)

lemma FileFacetEdge_of_bytes_bytes [simp]:
  "FileFacetEdge_of_bytes e (FileFacetEdge_bytes e r) = r"
  by (simp add: FileFacetEdge_of_bytes_def FileFacetEdge_bytes_def)

lemma length_BoundarySet_bytes [simp]: "length (BoundarySet_bytes e b) = 20"
  by (simp add: BoundarySet_bytes_def)

lemma BoundarySet_of_bytes_bytes [simp]:
  "BoundarySet_of_bytes e (BoundarySet_bytes e b) = b"
  by (simp add: BoundarySet_of_bytes_def BoundarySet_bytes_def)

lemma length_LisztType_bytes [simp]: "length (LisztType_bytes t) = 4"
  by (simp add: LisztType_bytes_def)

lemma LisztType_of_bytes_bytes [simp]: "LisztType_of_bytes (LisztType_bytes t) = t"
  by (simp add: LisztType_of_bytes_def LisztType_bytes_def bytes_at_def le_byte_def)

lemma length_FileField_bytes [simp]: "length (FileField_bytes e f) = 28"
  by (simp add: FileField_bytes_def)

lemma FileField_of_bytes_bytes [simp]: "FileField_of_bytes e (FileField_bytes e f) = f"
  by (simp add: FileField_of_bytes_def FileField_bytes_def)

lemma sizeof_decls [simp]:
  "sizeof (Struct LisztHeader_decl) = 52"
  "sizeof (Struct FileFacetEdge_decl) = 24"
  "sizeof (Struct BoundarySet_decl) = 20"
  "sizeof (Struct FileField_decl) = 28"
  "sizeof (Struct FieldTableIndex_decl) = 4"
  by (simp_all add: LisztHeader_decl_def FileFacetEdge_decl_def HalfFacet_decl_def
      BoundarySet_decl_def FileField_decl_def LisztType_decl_def FieldTableIndex_decl_def
      file_ptr_t_def lsize_t_t_def id_t_t_def)

declare sizeof.simps [simp del]

section \<open>Tables, names and offsets\<close>

lemma slice_append:
  "length pre = off \<Longrightarrow> length x = n \<Longrightarrow> slice (pre @ x @ post) off n = Some x"
  by (auto simp: slice_def bytes_at_def)

lemma slice_Some_length: "slice buf off n = Some bs \<Longrightarrow> length bs = n \<and> off + n \<le> length buf"
  by (auto simp: slice_def bytes_at_def split: if_splits)

lemma encodeRecords_concat:
  "(\<And>x j. x \<in> set xs \<Longrightarrow> enc j x = Inr (f x)) \<Longrightarrow>
   encodeRecords enc i xs = Inr (concat (map f xs))"
  by (induction xs arbitrary: i) simp_all

lemma decodeRecords_concat:
  assumes "\<And>x k. x \<in> set xs \<Longrightarrow> length (f x) = sz \<and> dec k (f x) = Inr (g x)"
    and "length pre = off + sz * i"
  shows "decodeRecords sz dec (pre @ concat (map f xs) @ post) off i (length xs)
           = Inr (map g xs)"
  using assms
proof (induction xs arbitrary: i pre)
  case Nil
  show ?case by simp
next
  case (Cons x xs)
  have fx: "length (f x) = sz" and dx: "dec i (f x) = Inr (g x)"
    using Cons.prems(1) [of x i] by simp_all
  have "slice (pre @ f x @ (concat (map f xs) @ post)) (off + sz * i) sz = Some (f x)"
    by (rule slice_append [OF Cons.prems(2) fx])
  then have sl: "slice (pre @ concat (map f (x # xs)) @ post) (off + sz * i) sz = Some (f x)"
    by simp
  have len: "length (pre @ f x) = off + sz * Suc i"
    using Cons.prems(2) fx by simp
  have "decodeRecords sz dec ((pre @ f x) @ concat (map f xs) @ post) off (Suc i) (length xs)
          = Inr (map g xs)"
    by (rule Cons.IH [OF _ len]) (use Cons.prems(1) in auto)
  then have rest: "decodeRecords sz dec (pre @ concat (map f (x # xs)) @ post) off (Suc i)
          (length xs) = Inr (map g xs)"
    by simp
  show ?case
    using sl dx rest by simp
qed

lemma length_concat_fixed:
  "(\<And>x. x \<in> set xs \<Longrightarrow> length (f x) = sz) \<Longrightarrow> length (concat (map f xs)) = sz * length xs"
  by (induction xs) simp_all

lemma readCString_append:
  assumes "0 \<notin> set s" and "off = length pre"
  shows "readCString (pre @ cstring s @ post) off = Inr s"
proof -
  have "takeWhile (\<lambda>b. b \<noteq> 0) (s @ 0 # post) = s"
    using assms(1) by (induction s) auto
  then show ?thesis
    using assms(2) by (simp add: readCString_def cstring_def)
qed

lemma unat_of_nat_64: "n < 2 ^ 64 \<Longrightarrow> unat (of_nat n :: 64 word) = n"
  by (simp add: unat_of_nat)

lemma unat_of_nat_32: "n < 2 ^ 32 \<Longrightarrow> unat (of_nat n :: 32 word) = n"
  by (simp add: unat_of_nat)

lemma mapE_resolveBoundarySets:
  assumes "\<And>b. b \<in> set bs \<Longrightarrow> 0 \<notin> set (mbs_name b)"
    and "buf = pre @ concat (map (\<lambda>b. cstring (mbs_name b)) bs) @ post"
    and "length buf < 2 ^ 64"
    and "noff = length pre"
  shows "mapE (resolveBoundarySet buf) (layoutBoundarySets noff bs) = Inr bs"
  using assms
proof (induction bs arbitrary: pre noff)
  case Nil
  show ?case by simp
next
  case (Cons b bs)
  let ?rest = "concat (map (\<lambda>b. cstring (mbs_name b)) bs) @ post"
  have buf: "buf = pre @ cstring (mbs_name b) @ ?rest"
    using Cons.prems(2) by simp
  have "noff \<le> length buf" using Cons.prems(2,4) by simp
  then have un: "unat (of_nat noff :: 64 word) = noff"
    using Cons.prems(3) by (simp add: unat_of_nat_64)
  have "readCString buf noff = Inr (mbs_name b)"
    unfolding buf by (rule readCString_append) (use Cons.prems(1,4) in auto)
  then have hd: "resolveBoundarySet buf
       \<lparr>bsd_type = mbs_type b, bsd_range = mbs_range b, bsd_name = of_nat noff\<rparr> = Inr b"
    by (simp add: resolveBoundarySet_def decodeBoundaryName_def un)
  have tl: "mapE (resolveBoundarySet buf)
       (layoutBoundarySets (noff + length (cstring (mbs_name b))) bs) = Inr bs"
  proof (rule Cons.IH [where pre = "pre @ cstring (mbs_name b)"])
    show "\<And>b'. b' \<in> set bs \<Longrightarrow> 0 \<notin> set (mbs_name b')" using Cons.prems(1) by simp
    show "buf = (pre @ cstring (mbs_name b)) @ ?rest" using buf by simp
    show "length buf < 2 ^ 64" by (rule Cons.prems(3))
    show "noff + length (cstring (mbs_name b)) = length (pre @ cstring (mbs_name b))"
      using Cons.prems(4) by simp
  qed
  show ?case using hd tl by simp
qed

lemma mapE_resolveFields:
  assumes "\<And>f. f \<in> set fs \<Longrightarrow> validField p f"
    and "buf = pre @ concat (map (\<lambda>f. cstring (mfd_name f)) fs) @ mid
                 @ concat (map mfd_data fs) @ post"
    and "length buf < 2 ^ 64"
    and "noff = length pre"
    and "doff = length pre + length (concat (map (\<lambda>f. cstring (mfd_name f)) fs)) + length mid"
  shows "mapE (resolveField p buf) (layoutFields noff doff fs) = Inr fs"
  using assms
proof (induction fs arbitrary: pre mid noff doff)
  case Nil
  show ?case by simp
next
  case (Cons f fs)
  let ?names = "concat (map (\<lambda>f. cstring (mfd_name f)) fs)"
  let ?datas = "concat (map mfd_data fs)"
  let ?d = "\<lparr>ff_domain = mfd_domain f, ff_range = mfd_range f, ff_nElems = mfd_nElems f,
      ff_name = of_nat noff, ff_data = of_nat doff\<rparr>"
  have vf: "validField p f" using Cons.prems(1) by simp
  then obtain sz where sz: "elementByteSize p (mfd_range f) = Inr sz"
    and dlen: "length (mfd_data f) = unat (mfd_nElems f) * sz"
    and nm: "0 \<notin> set (mfd_name f)"
    by (auto simp: validField_def split: sum.splits)
  have buf1: "buf = pre @ cstring (mfd_name f) @ (?names @ mid @ mfd_data f @ ?datas @ post)"
    using Cons.prems(2) by simp
  have buf2: "buf = (pre @ cstring (mfd_name f) @ ?names @ mid) @ mfd_data f @ (?datas @ post)"
    using Cons.prems(2) by simp
  have "noff \<le> length buf" "doff \<le> length buf" using Cons.prems(2,4,5) by simp_all
  then have un: "unat (of_nat noff :: 64 word) = noff" "unat (of_nat doff :: 64 word) = doff"
    using Cons.prems(3) by (simp_all add: unat_of_nat_64)
  have name: "readCString buf noff = Inr (mfd_name f)"
    unfolding buf1 by (rule readCString_append) (use nm Cons.prems(4) in auto)
  have "slice buf doff (length (mfd_data f)) = Some (mfd_data f)"
    unfolding buf2 by (rule slice_append) (use Cons.prems(4,5) in auto)
  then have data: "readFieldData p buf ?d = Inr (mfd_data f)"
    by (simp add: readFieldData_def sz un dlen)
  have hd: "resolveField p buf ?d = Inr f"
    using name data by (simp add: resolveField_def decodeFieldName_def un)
  have tl: "mapE (resolveField p buf)
       (layoutFields (noff + length (cstring (mfd_name f))) (doff + length (mfd_data f)) fs)
         = Inr fs"
  proof (rule Cons.IH [where pre = "pre @ cstring (mfd_name f)" and mid = "mid @ mfd_data f"])
    show "\<And>f'. f' \<in> set fs \<Longrightarrow> validField p f'" using Cons.prems(1) by simp
    show "buf = (pre @ cstring (mfd_name f)) @ ?names @ (mid @ mfd_data f) @ ?datas @ post"
      using Cons.prems(2) by simp
    show "length buf < 2 ^ 64" by (rule Cons.prems(3))
    show "noff + length (cstring (mfd_name f)) = length (pre @ cstring (mfd_name f))"
      using Cons.prems(4) by simp
    show "doff + length (mfd_data f) =
        length (pre @ cstring (mfd_name f)) + length ?names + length (mid @ mfd_data f)"
      using Cons.prems(5) by simp
  qed
  show ?case using hd tl by simp
qed

lemma encodeFacetEdge_ok:
  "facetEdgeInBounds h r \<Longrightarrow> encodeFacetEdge e h j r = Inr (FileFacetEdge_bytes e r)"
  by (simp add: encodeFacetEdge_def)

lemma decodeFacetEdge_bytes:
  "facetEdgeInBounds h r \<Longrightarrow> decodeFacetEdge e h k (FileFacetEdge_bytes e r) = Inr r"
  by (simp add: decodeFacetEdge_def)

lemma decodeBoundarySet_bytes:
  "consistentRange (bsd_type d) (bsd_range d) \<Longrightarrow>
   decodeBoundarySet e k (BoundarySet_bytes e (boundarySetRecord d)) = Inr d"
  by (cases "bsd_range d")
    (simp_all add: decodeBoundarySet_def boundarySetRecord_def consistentRange_def
      set_start_def set_end_def set_left_id_def set_right_id_def
      bs_start_def bs_end_def bs_left_id_def bs_right_id_def)

lemma elementByteSize_Inr:
  "elementByteSize p t = Inr sz \<Longrightarrow> recognizedKind (lt_type t) \<and> shapeOf (lt_flags t) \<noteq> None"
  by (auto simp: elementByteSize_def split: if_splits option.splits)

lemma decodeTypeDescriptor_bytes:
  "elementByteSize p t = Inr sz \<Longrightarrow> decodeTypeDescriptor (LisztType_bytes t) = Inr t"
  by (auto simp: decodeTypeDescriptor_def dest: elementByteSize_Inr)

lemma bytes_at_FileField_range:
  "bytes_at 4 4 (FileField_bytes e f) = LisztType_bytes (ff_range f)"
  by (simp add: FileField_bytes_def)

lemma encodeFieldDescriptor_ok:
  "elementByteSize p (ff_range f) = Inr sz \<Longrightarrow>
   encodeFieldDescriptor p e j f = Inr (FileField_bytes e f)"
  by (simp add: encodeFieldDescriptor_def)

lemma decodeFieldDescriptor_bytes:
  "elementByteSize p (ff_range f) = Inr sz \<Longrightarrow>
   unat (ff_data f) + unat (ff_nElems f) * sz \<le> n \<Longrightarrow>
   decodeFieldDescriptor p e n k (FileField_bytes e f) = Inr f"
  by (simp add: decodeFieldDescriptor_def bytes_at_FileField_range
      decodeTypeDescriptor_bytes [of p _ sz])

lemma length_layoutBoundarySets [simp]: "length (layoutBoundarySets noff bs) = length bs"
  by (induction bs arbitrary: noff) simp_all

lemma length_layoutFields [simp]: "length (layoutFields noff doff fs) = length fs"
  by (induction fs arbitrary: noff doff) simp_all

lemma layoutBoundarySets_member:
  "d \<in> set (layoutBoundarySets noff bs) \<Longrightarrow>
   \<exists>b \<in> set bs. bsd_type d = mbs_type b \<and> bsd_range d = mbs_range b"
  by (induction bs arbitrary: noff) auto

lemma layoutFields_member:
  "f \<in> set (layoutFields noff doff fs) \<Longrightarrow>
   \<exists>m \<in> set fs. \<exists>d. ff_range f = mfd_range m \<and> ff_nElems f = mfd_nElems m \<and>
      ff_data f = of_nat d \<and> doff \<le> d \<and>
      d + length (mfd_data m) \<le> doff + length (concat (map mfd_data fs))"
proof (induction fs arbitrary: noff doff)
  case Nil
  then show ?case by simp
next
  case (Cons m fs)
  from Cons.prems consider
    (hd) "f = \<lparr>ff_domain = mfd_domain m, ff_range = mfd_range m, ff_nElems = mfd_nElems m,
      ff_name = of_nat noff, ff_data = of_nat doff\<rparr>"
    | (tl) "f \<in> set (layoutFields (noff + length (cstring (mfd_name m)))
         (doff + length (mfd_data m)) fs)"
    by auto
  then show ?case
  proof cases
    case hd
    then show ?thesis by (intro bexI [of _ m] exI [of _ doff]) simp_all
  next
    case tl
    from Cons.IH [OF tl] obtain m' d where
      "m' \<in> set fs" "ff_range f = mfd_range m'" "ff_nElems f = mfd_nElems m'"
      "ff_data f = of_nat d" "doff + length (mfd_data m) \<le> d"
      "d + length (mfd_data m') \<le> doff + length (mfd_data m) + length (concat (map mfd_data fs))"
      by auto
    then show ?thesis by (intro bexI [of _ m'] exI [of _ d]) simp_all
  qed
qed

lemma decodeHeader_written:
  assumes "magic_number h = LISZT_MAGIC_NUMBER"
    and "52 \<le> unat (field_table_index h)" "unat (field_table_index h) \<le> 52 + length rest"
    and "52 \<le> unat (facet_edge_table h)" "unat (facet_edge_table h) \<le> 52 + length rest"
    and "52 \<le> unat (boundary_set_table h)" "unat (boundary_set_table h) \<le> 52 + length rest"
  shows "decodeHeader e (LisztHeader_bytes e h @ rest) = Inr h"
proof -
  have m: "slice (LisztHeader_bytes e h @ rest) 0 4 = Some (enc_u32 e (magic_number h))"
    by (simp add: slice_def LisztHeader_bytes_def)
  have hb: "slice (LisztHeader_bytes e h @ rest) 0 52 = Some (LisztHeader_bytes e h)"
    by (simp add: slice_def)
  show ?thesis
    using assms by (simp add: decodeHeader_def m hb)
qed

lemma decodeRecords_Inr:
  "decodeRecords sz dec buf off i n = Inr rs \<Longrightarrow>
   length rs = n \<and>
   (\<forall>k<n. \<exists>bs. slice buf (off + sz * (i + k)) sz = Some bs \<and> dec (i + k) bs = Inr (rs ! k))"
proof (induction n arbitrary: i rs)
  case 0
  then show ?case by simp
next
  case (Suc n)
  from Suc.prems obtain bs r rs' where
    sl: "slice buf (off + sz * i) sz = Some bs" and d: "dec i bs = Inr r"
    and rest: "decodeRecords sz dec buf off (Suc i) n = Inr rs'" and rs: "rs = r # rs'"
    by (auto split: option.splits sum.splits)
  from Suc.IH [OF rest] have len: "length rs' = n"
    and all: "\<forall>k<n. \<exists>bs. slice buf (off + sz * (Suc i + k)) sz = Some bs \<and>
        dec (Suc i + k) bs = Inr (rs' ! k)"
    by simp_all
  have "\<exists>bs. slice buf (off + sz * (i + k)) sz = Some bs \<and> dec (i + k) bs = Inr (rs ! k)"
    if "k < Suc n" for k
  proof (cases k)
    case 0
    with sl d rs show ?thesis by simp
  next
    case (Suc k')
    with that all have "\<exists>bs. slice buf (off + sz * (Suc i + k')) sz = Some bs \<and>
        dec (Suc i + k') bs = Inr (rs' ! k')" by simp
    with Suc rs show ?thesis by simp
  qed
  with len rs show ?case by simp
qed

lemma slice_earlier:
  "slice buf (off + sz * j) sz = Some bs \<Longrightarrow> i \<le> j \<Longrightarrow>
   \<exists>bs'. slice buf (off + sz * i) sz = Some bs'"
proof -
  assume a: "slice buf (off + sz * j) sz = Some bs" and ij: "i \<le> j"
  from a have "off + sz * j + sz \<le> length buf"
    by (simp add: slice_def split: if_splits)
  moreover have "sz * i \<le> sz * j" using ij by simp
  ultimately have "off + sz * i + sz \<le> length buf" by linarith
  then show ?thesis by (simp add: slice_def)
qed

lemma decodeFacetEdges_first_violation:
  assumes "i \<le> j" and "j < i + n"
    and "slice buf (off + 24 * j) 24 = Some bs"
    and "\<not> facetEdgeInBounds h (FileFacetEdge_of_bytes e bs)"
  shows "\<exists>k bk. i \<le> k \<and> k \<le> j \<and>
           decodeRecords 24 (decodeFacetEdge e h) buf off i n = Inl (ReferentialIntegrity k) \<and>
           slice buf (off + 24 * k) 24 = Some bk \<and>
           \<not> facetEdgeInBounds h (FileFacetEdge_of_bytes e bk) \<and>
           (\<forall>m bm. i \<le> m \<and> m < k \<and> slice buf (off + 24 * m) 24 = Some bm
              \<longrightarrow> facetEdgeInBounds h (FileFacetEdge_of_bytes e bm))"
  using assms
proof (induction n arbitrary: i)
  case 0
  then show ?case by simp
next
  case (Suc n)
  from slice_earlier [OF Suc.prems(3,1)] obtain bi where
    bi: "slice buf (off + 24 * i) 24 = Some bi" by blast
  show ?case
  proof (cases "facetEdgeInBounds h (FileFacetEdge_of_bytes e bi)")
    case False
    then have "decodeRecords 24 (decodeFacetEdge e h) buf off i (Suc n)
        = Inl (ReferentialIntegrity i)"
      using bi by (simp add: decodeFacetEdge_def)
    with False bi Suc.prems(1) show ?thesis
      by (intro exI [of _ i] exI [of _ bi]) auto
  next
    case True
    have "i \<noteq> j" using True bi Suc.prems(3,4) by auto
    then have "Suc i \<le> j" "j < Suc i + n" using Suc.prems(1,2) by simp_all
    from Suc.IH [OF this Suc.prems(3,4)] obtain k bk where
      k: "Suc i \<le> k" "k \<le> j"
      and res: "decodeRecords 24 (decodeFacetEdge e h) buf off (Suc i) n
          = Inl (ReferentialIntegrity k)"
      and bk: "slice buf (off + 24 * k) 24 = Some bk"
        "\<not> facetEdgeInBounds h (FileFacetEdge_of_bytes e bk)"
      and before: "\<forall>m bm. Suc i \<le> m \<and> m < k \<and> slice buf (off + 24 * m) 24 = Some bm
              \<longrightarrow> facetEdgeInBounds h (FileFacetEdge_of_bytes e bm)"
      by blast
    have r: "decodeRecords 24 (decodeFacetEdge e h) buf off i (Suc n)
        = Inl (ReferentialIntegrity k)"
      using bi True res by (simp add: decodeFacetEdge_def)
    have "facetEdgeInBounds h (FileFacetEdge_of_bytes e bm)"
      if "i \<le> m" "m < k" "slice buf (off + 24 * m) 24 = Some bm" for m bm
    proof (cases "m = i")
      case True
      with that bi \<open>facetEdgeInBounds h (FileFacetEdge_of_bytes e bi)\<close> show ?thesis by simp
    next
      case False
      with that have "Suc i \<le> m" by simp
      with that before show ?thesis by blast
    qed
    with k r bk show ?thesis
      by (intro exI [of _ k] exI [of _ bk]) auto
  qed
qed

lemma bytes_at_concat_fixed:
  "(\<And>x. x \<in> set xs \<Longrightarrow> length (f x) = sz) \<Longrightarrow> k < length xs \<Longrightarrow>
   bytes_at (sz * k) sz (concat (map f xs)) = f (xs ! k)"
proof (induction xs arbitrary: k)
  case Nil
  then show ?case by simp
next
  case (Cons x xs)
  have fx: "length (f x) = sz" using Cons.prems(1) by simp
  show ?case
  proof (cases k)
    case 0
    with fx show ?thesis by simp
  next
    case (Suc k')
    with Cons.prems have "bytes_at (sz * k') sz (concat (map f xs)) = f (xs ! k')"
      by (intro Cons.IH) simp_all
    with Suc fx show ?thesis by simp
  qed
qed

lemma decodeHeader_bad_magic:
  assumes "bytes_at 0 4 buf \<noteq> enc_u32 e LISZT_MAGIC_NUMBER"
  shows "decodeHeader e buf = Inl CorruptFile"
proof (cases "slice buf 0 4")
  case None
  then show ?thesis by (simp add: decodeHeader_def)
next
  case (Some m)
  then have m: "m = bytes_at 0 4 buf" and len: "length m = 4"
    by (auto simp: slice_def bytes_at_def split: if_splits)
  have "dec_u32 e m \<noteq> LISZT_MAGIC_NUMBER"
  proof
    assume "dec_u32 e m = LISZT_MAGIC_NUMBER"
    then have "enc_u32 e (dec_u32 e m) = enc_u32 e LISZT_MAGIC_NUMBER" by simp
    then have "m = enc_u32 e LISZT_MAGIC_NUMBER" using enc_dec_u32 [OF len] by simp
    with assms m show False by simp
  qed
  with Some show ?thesis by (simp add: decodeHeader_def)
qed

lemma le_bytes_4:
  "le_bytes 4 v =
     [of_nat (v mod 256), of_nat (v div 256 mod 256), of_nat (v div 256 div 256 mod 256),
      of_nat (v div 256 div 256 div 256 mod 256)]"
proof -
  have "(4::nat) = Suc (Suc (Suc (Suc 0)))" by simp
  then show ?thesis by (simp only: le_bytes.simps)
qed

lemma enc_u32_magic_LE: "enc_u32 LittleEndian LISZT_MAGIC_NUMBER = [0x22, 0x10, 0x11, 0x18]"
  by (simp add: enc_u32_def enc_uint_def LISZT_MAGIC_NUMBER_def le_bytes_4)

lemma dec_u32_LE4:
  "dec_u32 LittleEndian [a, b, c, d]
     = of_nat (unat a + 256 * (unat b + 256 * (unat c + 256 * unat d)))"
  by (simp add: dec_u32_def dec_uint_def)

lemma good_of_bytes:
  "FileFacetEdge_of_bytes LittleEndian goodRecord
     = \<lparr>face = 1, edge = 2, hf_0 = \<lparr>cell = 0, vert = 3\<rparr>, hf_1 = \<lparr>cell = 1, vert = 2\<rparr>\<rparr>"
  by (simp add: FileFacetEdge_of_bytes_def HalfFacet_of_bytes_def goodRecord_def bytes_at_def
      dec_u32_LE4)

lemma bad_of_bytes:
  "FileFacetEdge_of_bytes LittleEndian badRecord
     = \<lparr>face = 1, edge = 2, hf_0 = \<lparr>cell = 0, vert = 3\<rparr>, hf_1 = \<lparr>cell = 2, vert = 2\<rparr>\<rparr>"
  by (simp add: FileFacetEdge_of_bytes_def HalfFacet_of_bytes_def badRecord_def bytes_at_def
      dec_u32_LE4)

lemma slice_example_0: "slice (goodRecord @ badRecord) (0 + 24 * 0) 24 = Some goodRecord"
  using slice_append [of "[]" 0 goodRecord 24 badRecord] by (simp add: goodRecord_def)

lemma slice_example_1: "slice (goodRecord @ badRecord) (0 + 24 * 1) 24 = Some badRecord"
  using slice_append [of goodRecord 24 badRecord 24 "[]"] by (simp add: goodRecord_def badRecord_def)

lemma bad_violates:
  "\<not> facetEdgeInBounds exampleHeader (FileFacetEdge_of_bytes LittleEndian badRecord)"
  by (simp add: bad_of_bytes facetEdgeInBounds_def exampleHeader_def)

lemma good_in_bounds:
  "facetEdgeInBounds exampleHeader (FileFacetEdge_of_bytes LittleEndian goodRecord)"
  by (simp add: good_of_bytes facetEdgeInBounds_def exampleHeader_def)

lemma decode_example_bad:
  "decodeFacetEdges LittleEndian exampleHeader (goodRecord @ badRecord) 0 2
     = Inl (ReferentialIntegrity 1)"
proof -
  have "decodeRecords 24 (decodeFacetEdge LittleEndian exampleHeader) (goodRecord @ badRecord)
          0 0 (Suc (Suc 0)) = Inl (ReferentialIntegrity 1)"
    using slice_example_0 slice_example_1 bad_violates good_in_bounds
    by (simp add: decodeFacetEdge_def)
  then show ?thesis by (simp add: decodeFacetEdges_def numeral_2_eq_2)
qed

lemma decode_example_good:
  "decodeFacetEdges LittleEndian exampleHeader (goodRecord @ badRecord) 0 1
     = Inr [\<lparr>face = 1, edge = 2, hf_0 = \<lparr>cell = 0, vert = 3\<rparr>, hf_1 = \<lparr>cell = 1, vert = 2\<rparr>\<rparr>]"
proof -
  have "decodeRecords 24 (decodeFacetEdge LittleEndian exampleHeader) (goodRecord @ badRecord)
          0 0 (Suc 0) = Inr [FileFacetEdge_of_bytes LittleEndian goodRecord]"
    using slice_example_0 good_in_bounds
    by (simp add: decodeFacetEdge_def)
  then show ?thesis by (simp add: decodeFacetEdges_def good_of_bytes)
qed

section \<open>Base-kind sizes\<close>

text \<open>
  C3 (as amended). \<open>lMeshTypeSize\<close> returns the compiling platform's \<open>sizeof(int)\<close>,
  \<open>sizeof(float)\<close>, \<open>sizeof(double)\<close> and \<open>sizeof(bool)\<close> for the four kinds; these
  are 4, 4, 8 and 1 on x86-64.
\<close>

theorem lMeshTypeSize_platform_sizes:
  "lMeshTypeSize p LISZT_INT = sizeof_int p \<and>
   lMeshTypeSize p LISZT_FLOAT = sizeof_float p \<and>
   lMeshTypeSize p LISZT_DOUBLE = sizeof_double p \<and>
   lMeshTypeSize p LISZT_BOOL = sizeof_bool p \<and>
   lMeshTypeSize x86_64 LISZT_INT = 4 \<and>
   lMeshTypeSize x86_64 LISZT_FLOAT = 4 \<and>
   lMeshTypeSize x86_64 LISZT_DOUBLE = 8 \<and>
   lMeshTypeSize x86_64 LISZT_BOOL = 1"
  by (simp add: lMeshTypeSize_def LISZT_INT_def LISZT_FLOAT_def LISZT_DOUBLE_def
      LISZT_BOOL_def x86_64_def)

text \<open>
  C3 (as stated) fails: the sizes are not the same on every platform. On 32-bit PowerPC
  Darwin the boolean kind has size 4, and on AVR the integer kind has size 2 and the
  double kind size 4.
\<close>

theorem lMeshTypeSize_host_dependent:
  "lMeshTypeSize darwin_ppc32 LISZT_BOOL = 4 \<and> lMeshTypeSize darwin_ppc32 LISZT_BOOL \<noteq> 1 \<and>
   lMeshTypeSize avr LISZT_INT = 2 \<and> lMeshTypeSize avr LISZT_INT \<noteq> 4 \<and>
   lMeshTypeSize avr LISZT_DOUBLE = 4 \<and> lMeshTypeSize avr LISZT_DOUBLE \<noteq> 8"
  by (simp add: lMeshTypeSize_def LISZT_INT_def LISZT_FLOAT_def LISZT_DOUBLE_def
      LISZT_BOOL_def darwin_ppc32_def avr_def)

text \<open>
  C4. For every base-kind byte other than the four recognized kinds (\<open>LISZT_INT = 0\<close>,
  \<open>LISZT_FLOAT = 1\<close>, \<open>LISZT_DOUBLE = 2\<close>, \<open>LISZT_BOOL = 3\<close>), \<open>lMeshTypeSize\<close>
  returns 0 on every platform, decoding a TypeDescriptor of that kind fails with
  \<open>UnsupportedType\<close>, and \<open>elementByteSize\<close> fails the same way instead of giving a
  size.
\<close>

theorem unrecognized_kind_rejected:
  "typ \<noteq> LISZT_INT \<and> typ \<noteq> LISZT_FLOAT \<and> typ \<noteq> LISZT_DOUBLE \<and> typ \<noteq> LISZT_BOOL \<Longrightarrow>
   lMeshTypeSize p typ = 0 \<and>
   decodeTypeDescriptor [typ, fl, d0, d1] = Inl UnsupportedType \<and>
   elementByteSize p \<lparr>lt_type = typ, lt_flags = fl, lt_data0 = d0, lt_data1 = d1\<rparr>
     = Inl UnsupportedType \<and>
   LISZT_INT = 0 \<and> LISZT_FLOAT = 1 \<and> LISZT_DOUBLE = 2 \<and> LISZT_BOOL = 3"
  by (simp add: lMeshTypeSize_def decodeTypeDescriptor_def elementByteSize_def
      recognizedKind_def LisztType_of_bytes_def bytes_at_def le_byte_def
      LISZT_INT_def LISZT_FLOAT_def LISZT_DOUBLE_def LISZT_BOOL_def)

theorem unrecognized_kind_rejected_witness:
  "(4 :: byte) \<noteq> LISZT_INT \<and> (4 :: byte) \<noteq> LISZT_FLOAT \<and> (4 :: byte) \<noteq> LISZT_DOUBLE \<and>
   (4 :: byte) \<noteq> LISZT_BOOL \<and>
   lMeshTypeSize x86_64 4 = 0 \<and>
   decodeTypeDescriptor [4, 0, 0, 0] = Inl UnsupportedType \<and>
   elementByteSize x86_64 \<lparr>lt_type = 4, lt_flags = 0, lt_data0 = 0, lt_data1 = 0\<rparr>
     = Inl UnsupportedType"
proof -
  have h: "(4 :: byte) \<noteq> LISZT_INT \<and> (4 :: byte) \<noteq> LISZT_FLOAT \<and> (4 :: byte) \<noteq> LISZT_DOUBLE \<and>
      (4 :: byte) \<noteq> LISZT_BOOL"
    by (simp add: LISZT_INT_def LISZT_FLOAT_def LISZT_DOUBLE_def LISZT_BOOL_def)
  from unrecognized_kind_rejected [OF h, of x86_64 0 0 0] h show ?thesis by simp
qed




section \<open>The aggregate flag\<close>

text \<open>
  C9. The flag bit \<open>AGG_FLAG = 1 << 7\<close> is disjoint from the four element-type tags:
  for each tag \<open>t\<close>, \<open>t AND AGG_FLAG = 0\<close>, and setting the flag and clearing it again
  gives \<open>t\<close> back. A tag with the flag set shows the flag, differs from every plain tag,
  and two tags with the flag set are equal only if the tags are.
\<close>

theorem AGG_FLAG_disjoint_from_tags:
  "t \<in> {VERTEX_T, CELL_T, EDGE_T, FACE_T} \<Longrightarrow>
   IOElemType_val AGG_FLAG = 128 \<and>
   IOElemType_val t AND IOElemType_val AGG_FLAG = 0 \<and>
   (IOElemType_val t OR IOElemType_val AGG_FLAG) AND NOT (IOElemType_val AGG_FLAG)
     = IOElemType_val t \<and>
   IOElemType_val t AND NOT (IOElemType_val AGG_FLAG) = IOElemType_val t \<and>
   (IOElemType_val t OR IOElemType_val AGG_FLAG) AND IOElemType_val AGG_FLAG
     = IOElemType_val AGG_FLAG \<and>
   (\<forall>t' \<in> {VERTEX_T, CELL_T, EDGE_T, FACE_T}.
      IOElemType_val t OR IOElemType_val AGG_FLAG \<noteq> IOElemType_val t' \<and>
      (IOElemType_val t OR IOElemType_val AGG_FLAG
         = IOElemType_val t' OR IOElemType_val AGG_FLAG \<longrightarrow> t = t'))"
  by auto

theorem AGG_FLAG_disjoint_from_tags_witness:
  "FACE_T \<in> {VERTEX_T, CELL_T, EDGE_T, FACE_T} \<and>
   IOElemType_val FACE_T AND IOElemType_val AGG_FLAG = 0 \<and>
   (IOElemType_val FACE_T OR IOElemType_val AGG_FLAG) AND NOT (IOElemType_val AGG_FLAG)
     = IOElemType_val FACE_T \<and>
   IOElemType_val FACE_T OR IOElemType_val AGG_FLAG = 131"
  using AGG_FLAG_disjoint_from_tags [of FACE_T] by simp

section \<open>Round trip\<close>

text \<open>
  C1. For every valid mesh \<open>M\<close> in memory, \<open>writeMesh\<close> succeeds, and \<open>readMesh\<close> of
  the buffer it produced succeeds and returns \<open>M\<close>: the same counts, the same facet-edge
  records, the same boundary sets, the same fields with the same data bytes. The buffer
  has the length the write path computed.
\<close>

theorem readMesh_writeMesh:
  assumes "validMesh p M"
  shows "\<exists>buf. writeMesh p e M = Inr buf \<and> length buf = fileSize M \<and>
           readMesh p e buf = Inr M"
proof -
  define h where "h = meshHeader M"
  define fes where "fes = mf_facetEdges M"
  define bss where "bss = mf_boundarySets M"
  define fs where "fs = mf_fields M"
  define bsds where "bsds = layoutBoundarySets (off_boundaryNames M) bss"
  define ffs where "ffs = layoutFields (off_fieldNames M) (off_fieldData M) fs"
  define hdr where "hdr = LisztHeader_bytes e h"
  define fe where "fe = concat (map (FileFacetEdge_bytes e) fes)"
  define bs where "bs = concat (map (\<lambda>d. BoundarySet_bytes e (boundarySetRecord d)) bsds)"
  define cnt where "cnt = enc_u32 e (of_nat (length fs))"
  define fd where "fd = concat (map (FileField_bytes e) ffs)"
  define bn where "bn = boundaryNames M"
  define fn where "fn = fieldNames M"
  define dat where "dat = fieldData M"
  define buf where "buf = hdr @ fe @ bs @ cnt @ fd @ bn @ fn @ dat"

  from assms have fe_ok: "\<And>r. r \<in> set fes \<Longrightarrow> facetEdgeInBounds h r"
    and bs_ok: "\<And>b. b \<in> set bss \<Longrightarrow> validBoundarySet b"
    and f_ok: "\<And>f. f \<in> set fs \<Longrightarrow> validField p f"
    and n_fe: "length fes < 2 ^ 32"
    and n_bs: "length bss < 2 ^ 32"
    and n_f: "length fs < 2 ^ 32"
    and size: "fileSize M < 2 ^ 64"
    by (auto simp: validMesh_def list_all_iff h_def fes_def bss_def fs_def)

  have len_hdr: "length hdr = 52" by (simp add: hdr_def)
  have len_cnt: "length cnt = 4" by (simp add: cnt_def)
  have len_fe: "length fe = 24 * length fes"
    unfolding fe_def by (rule length_concat_fixed) simp
  have "length bs = 20 * length bsds"
    unfolding bs_def by (rule length_concat_fixed) simp
  then have len_bs: "length bs = 20 * length bss" by (simp add: bsds_def)
  have "length fd = 28 * length ffs"
    unfolding fd_def by (rule length_concat_fixed) simp
  then have len_fd: "length fd = 28 * length fs" by (simp add: ffs_def)
  have o_fe: "off_facetEdges M = 52"
    by (simp add: off_facetEdges_def)
  have o_bs: "off_boundarySets M = 52 + length fe"
    by (simp add: off_boundarySets_def o_fe len_fe fes_def)
  have o_ft: "off_fieldTable M = 52 + length fe + length bs"
    by (simp add: off_fieldTable_def o_bs len_bs bss_def)
  have o_bn: "off_boundaryNames M = 52 + length fe + length bs + 4 + length fd"
    by (simp add: off_boundaryNames_def o_ft len_fd fs_def)
  have o_fn: "off_fieldNames M = 52 + length fe + length bs + 4 + length fd + length bn"
    by (simp add: off_fieldNames_def o_bn bn_def)
  have o_fd: "off_fieldData M
      = 52 + length fe + length bs + 4 + length fd + length bn + length fn"
    by (simp add: off_fieldData_def o_fn fn_def)
  have len_buf: "length buf = fileSize M"
    by (simp add: fileSize_def o_fd buf_def len_hdr len_cnt dat_def)
  have buf_lt: "length buf < 2 ^ 64"
    using size len_buf by simp

  \<comment> \<open>the write path\<close>
  have enc_fe: "encodeFacetEdges e h fes = Inr fe"
    unfolding encodeFacetEdges_def fe_def
    by (rule encodeRecords_concat) (simp add: encodeFacetEdge_ok fe_ok)
  have bsd_ok: "consistentRange (bsd_type d) (bsd_range d)" if "d \<in> set bsds" for d
    using layoutBoundarySets_member [OF that [unfolded bsds_def]] bs_ok
    by (auto simp: validBoundarySet_def)
  have enc_bs: "encodeBoundarySets e bsds = Inr bs"
    unfolding encodeBoundarySets_def bs_def
    by (rule encodeRecords_concat) (simp add: encodeBoundarySet_def bsd_ok)
  have ff_ok: "\<exists>sz. elementByteSize p (ff_range f) = Inr sz \<and>
      unat (ff_data f) + unat (ff_nElems f) * sz \<le> length buf" if "f \<in> set ffs" for f
  proof -
    from layoutFields_member [OF that [unfolded ffs_def]] obtain m d where m: "m \<in> set fs"
      and eqs: "ff_range f = mfd_range m" "ff_nElems f = mfd_nElems m" "ff_data f = of_nat d"
      and d: "d + length (mfd_data m) \<le> off_fieldData M + length (concat (map mfd_data fs))"
      by blast
    from f_ok [OF m] obtain sz where sz: "elementByteSize p (mfd_range m) = Inr sz"
      and dl: "length (mfd_data m) = unat (mfd_nElems m) * sz"
      by (auto simp: validField_def split: sum.splits)
    have le: "d + length (mfd_data m) \<le> length buf"
      using d len_buf by (simp add: fileSize_def fieldData_def fs_def)
    then have "d < 2 ^ 64" using buf_lt by simp
    then have "unat (of_nat d :: 64 word) = d" by (rule unat_of_nat_64)
    with le dl sz eqs show ?thesis by simp
  qed
  have "encodeRecords (encodeFieldDescriptor p e) 0 ffs = Inr fd"
    unfolding fd_def
  proof (rule encodeRecords_concat)
    fix f j assume "f \<in> set ffs"
    from ff_ok [OF this] obtain sz where "elementByteSize p (ff_range f) = Inr sz" by blast
    then show "encodeFieldDescriptor p e j f = Inr (FileField_bytes e f)"
      by (rule encodeFieldDescriptor_ok)
  qed
  then have enc_ft: "encodeFieldTable p e
      \<lparr>num_fields = of_nat (length fs), field = ffs\<rparr> = Inr (cnt @ fd)"
    by (simp add: encodeFieldTable_def cnt_def)
  have w: "writeMesh p e M = Inr buf"
    unfolding writeMesh_def Let_def
    using enc_fe enc_bs enc_ft
    by (simp add: h_def fes_def bss_def fs_def bsds_def ffs_def encodeHeader_def
        buf_def hdr_def bn_def fn_def dat_def)

  \<comment> \<open>the read path\<close>
  have un_fe: "unat (facet_edge_table h) = 52"
    by (simp add: h_def meshHeader_def o_fe)
  have "off_boundarySets M < 2 ^ 64" "off_fieldTable M < 2 ^ 64"
    using buf_lt by (simp_all add: o_bs o_ft buf_def len_hdr)
  then have "unat (boundary_set_table h) = off_boundarySets M"
    and "unat (field_table_index h) = off_fieldTable M"
    by (simp_all add: h_def meshHeader_def unat_of_nat_64)
  then have un_bs: "unat (boundary_set_table h) = 52 + length fe"
    and un_ft: "unat (field_table_index h) = 52 + length fe + length bs"
    by (simp_all only: o_bs o_ft)
  have un_nfe: "unat (nFE h) = length fes"
    and un_nbs: "unat (nBoundaries h) = length bss"
    using n_fe n_bs by (simp_all add: h_def meshHeader_def unat_of_nat_32 fes_def bss_def)
  have counts: "nV h = mf_nV M" "nE h = mf_nE M" "nF h = mf_nF M" "nC h = mf_nC M"
    by (simp_all add: h_def meshHeader_def)
  have "decodeHeader e (LisztHeader_bytes e h @ (fe @ bs @ cnt @ fd @ bn @ fn @ dat)) = Inr h"
    by (rule decodeHeader_written) (simp_all add: un_fe un_bs un_ft, simp add: h_def meshHeader_def)
  then have dec_h: "decodeHeader e buf = Inr h"
    by (simp add: buf_def hdr_def)
  have "decodeRecords 24 (decodeFacetEdge e h)
          (hdr @ concat (map (FileFacetEdge_bytes e) fes) @ (bs @ cnt @ fd @ bn @ fn @ dat))
          52 0 (length fes)
        = Inr (map (\<lambda>r. r) fes)"
    by (rule decodeRecords_concat) (simp_all add: decodeFacetEdge_bytes fe_ok len_hdr)
  then have dec_fe: "decodeFacetEdges e h buf (unat (facet_edge_table h)) (unat (nFE h))
      = Inr fes"
    by (simp add: decodeFacetEdges_def un_fe un_nfe buf_def fe_def)
  have "decodeRecords 20 (decodeBoundarySet e)
          ((hdr @ fe) @ concat (map (\<lambda>d. BoundarySet_bytes e (boundarySetRecord d)) bsds)
             @ (cnt @ fd @ bn @ fn @ dat))
          (52 + length fe) 0 (length bsds)
        = Inr (map (\<lambda>d. d) bsds)"
    by (rule decodeRecords_concat) (simp_all add: decodeBoundarySet_bytes bsd_ok len_hdr)
  then have dec_bs: "decodeBoundarySets e buf (unat (boundary_set_table h))
      (unat (nBoundaries h)) = Inr bsds"
    by (simp add: decodeBoundarySets_def un_bs un_nbs buf_def bs_def bsds_def)
  have "slice ((hdr @ fe @ bs) @ cnt @ (fd @ bn @ fn @ dat)) (52 + length fe + length bs) 4
      = Some cnt"
    by (rule slice_append) (simp_all add: len_hdr len_cnt)
  then have sl_cnt: "slice buf (52 + length fe + length bs) 4 = Some cnt"
    by (simp add: buf_def)
  have "decodeRecords 28 (decodeFieldDescriptor p e (length buf))
          ((hdr @ fe @ bs @ cnt) @ concat (map (FileField_bytes e) ffs) @ (bn @ fn @ dat))
          (52 + length fe + length bs + 4) 0 (length ffs)
        = Inr (map (\<lambda>f. f) ffs)"
  proof (rule decodeRecords_concat)
    fix f k assume "f \<in> set ffs"
    from ff_ok [OF this] obtain sz where "elementByteSize p (ff_range f) = Inr sz"
      "unat (ff_data f) + unat (ff_nElems f) * sz \<le> length buf" by blast
    then have "decodeFieldDescriptor p e (length buf) k (FileField_bytes e f) = Inr f"
      by (rule decodeFieldDescriptor_bytes)
    then show "length (FileField_bytes e f) = 28 \<and>
        decodeFieldDescriptor p e (length buf) k (FileField_bytes e f) = Inr f"
      by simp
  qed (simp add: len_hdr len_cnt)
  then have "decodeRecords 28 (decodeFieldDescriptor p e (length buf)) buf
          (52 + length fe + length bs + 4) 0 (length fs) = Inr ffs"
    by (simp add: buf_def fd_def ffs_def)
  then have dec_ft: "decodeFieldTable p e buf (unat (field_table_index h)) = Inr ffs"
    using sl_cnt n_f by (simp add: decodeFieldTable_def un_ft cnt_def unat_of_nat_32)
  have res_bs: "mapE (resolveBoundarySet buf) bsds = Inr bss"
    unfolding bsds_def
  proof (rule mapE_resolveBoundarySets
      [where pre = "hdr @ fe @ bs @ cnt @ fd" and post = "fn @ dat"])
    show "\<And>b. b \<in> set bss \<Longrightarrow> 0 \<notin> set (mbs_name b)"
      using bs_ok by (simp add: validBoundarySet_def)
    show "buf = (hdr @ fe @ bs @ cnt @ fd)
        @ concat (map (\<lambda>b. cstring (mbs_name b)) bss) @ fn @ dat"
      by (simp add: buf_def bn_def boundaryNames_def bss_def)
    show "length buf < 2 ^ 64" by (rule buf_lt)
    show "off_boundaryNames M = length (hdr @ fe @ bs @ cnt @ fd)"
      by (simp add: o_bn len_hdr len_cnt)
  qed
  have res_f: "mapE (resolveField p buf) ffs = Inr fs"
    unfolding ffs_def
  proof (rule mapE_resolveFields
      [where pre = "hdr @ fe @ bs @ cnt @ fd @ bn" and mid = "[]" and post = "[]"])
    show "\<And>f. f \<in> set fs \<Longrightarrow> validField p f" by (rule f_ok)
    show "buf = (hdr @ fe @ bs @ cnt @ fd @ bn)
        @ concat (map (\<lambda>f. cstring (mfd_name f)) fs) @ []
        @ concat (map mfd_data fs) @ []"
      by (simp add: buf_def fn_def dat_def fieldNames_def fieldData_def fs_def)
    show "length buf < 2 ^ 64" by (rule buf_lt)
    show "off_fieldNames M = length (hdr @ fe @ bs @ cnt @ fd @ bn)"
      by (simp add: o_fn len_hdr len_cnt)
    show "off_fieldData M = length (hdr @ fe @ bs @ cnt @ fd @ bn)
        + length (concat (map (\<lambda>f. cstring (mfd_name f)) fs)) + length ([] :: byte list)"
      by (simp add: o_fd len_hdr len_cnt fn_def fieldNames_def fs_def)
  qed
  have "readMesh p e buf = Inr \<lparr>mf_nV = mf_nV M, mf_nE = mf_nE M, mf_nF = mf_nF M,
      mf_nC = mf_nC M, mf_facetEdges = fes, mf_boundarySets = bss, mf_fields = fs\<rparr>"
    by (simp add: readMesh_def dec_h dec_fe dec_bs dec_ft res_bs res_f counts)
  then have r: "readMesh p e buf = Inr M"
    by (simp add: fes_def bss_def fs_def)
  from w len_buf r show ?thesis by blast
qed

lemma validMesh_exampleMesh: "validMesh x86_64 exampleMesh"
  by (simp add: validMesh_def exampleMesh_def facetEdgeInBounds_def meshHeader_def
      validBoundarySet_def consistentRange_def isAggregate_def validField_def
      elementByteSize_def recognizedKind_def shapeOf_def multiplicity_def lMeshTypeSize_def
      LISZT_INT_def LISZT_FLOAT_def LISZT_DOUBLE_def LISZT_BOOL_def LISZT_VEC_FLAG_def
      LISZT_MAT_FLAG_def x86_64_def fileSize_def off_fieldData_def off_fieldNames_def
      off_boundaryNames_def off_fieldTable_def off_boundarySets_def off_facetEdges_def
      boundaryNames_def fieldNames_def fieldData_def cstring_def)

lemma fileSize_exampleMesh: "fileSize exampleMesh = 178"
  by (simp add: exampleMesh_def fileSize_def off_fieldData_def off_fieldNames_def
      off_boundaryNames_def off_fieldTable_def off_boundarySets_def off_facetEdges_def
      boundaryNames_def fieldNames_def fieldData_def cstring_def)

theorem readMesh_writeMesh_witness:
  "validMesh x86_64 exampleMesh \<and>
   (\<exists>buf. writeMesh x86_64 LittleEndian exampleMesh = Inr buf \<and> length buf = 178 \<and>
      readMesh x86_64 LittleEndian buf = Inr exampleMesh)"
  using readMesh_writeMesh [OF validMesh_exampleMesh, of LittleEndian]
  by (simp add: validMesh_exampleMesh fileSize_exampleMesh)

section \<open>Referential integrity of the facet-edge table\<close>

text \<open>
  C2. \<open>decodeFacetEdges\<close> checks the ids of each of the \<open>n\<close> records against the header
  counts. If a record \<open>j\<close> of the table lies in the file and violates a bound, the result
  is the error \<open>ReferentialIntegrity k\<close>, where \<open>k\<close> is the index of the first violating
  record; no sequence is returned. A returned sequence has all \<open>n\<close> records, each read
  from its place in the file and each within the four bounds.
\<close>

theorem decodeFacetEdges_referential_integrity:
  "(j < n \<and> slice buf (off + 24 * j) 24 = Some bs \<and>
      \<not> facetEdgeInBounds h (FileFacetEdge_of_bytes e bs)
    \<longrightarrow> (\<exists>k bk. k \<le> j \<and>
           decodeFacetEdges e h buf off n = Inl (ReferentialIntegrity k) \<and>
           slice buf (off + 24 * k) 24 = Some bk \<and>
           \<not> facetEdgeInBounds h (FileFacetEdge_of_bytes e bk) \<and>
           (\<forall>m bm. m < k \<and> slice buf (off + 24 * m) 24 = Some bm
              \<longrightarrow> facetEdgeInBounds h (FileFacetEdge_of_bytes e bm)))) \<and>
   (decodeFacetEdges e h buf off n = Inr rs
    \<longrightarrow> length rs = n \<and>
        (\<forall>k<n. off + 24 * k + 24 \<le> length buf \<and>
           rs ! k = FileFacetEdge_of_bytes e (bytes_at (off + 24 * k) 24 buf) \<and>
           cell (hf_0 (rs ! k)) < nC h \<and> cell (hf_1 (rs ! k)) < nC h \<and>
           vert (hf_0 (rs ! k)) < nV h \<and> vert (hf_1 (rs ! k)) < nV h \<and>
           face (rs ! k) < nF h \<and> edge (rs ! k) < nE h)) \<and>
   (facetEdgeInBounds h r \<longleftrightarrow>
      cell (hf_0 r) < nC h \<and> cell (hf_1 r) < nC h \<and>
      vert (hf_0 r) < nV h \<and> vert (hf_1 r) < nV h \<and>
      face r < nF h \<and> edge r < nE h)"
proof (intro conjI impI)
  assume a: "j < n \<and> slice buf (off + 24 * j) 24 = Some bs \<and>
      \<not> facetEdgeInBounds h (FileFacetEdge_of_bytes e bs)"
  then have "0 \<le> j" "j < 0 + n" by simp_all
  from decodeFacetEdges_first_violation [OF this, of buf off bs h e] a
  show "\<exists>k bk. k \<le> j \<and>
           decodeFacetEdges e h buf off n = Inl (ReferentialIntegrity k) \<and>
           slice buf (off + 24 * k) 24 = Some bk \<and>
           \<not> facetEdgeInBounds h (FileFacetEdge_of_bytes e bk) \<and>
           (\<forall>m bm. m < k \<and> slice buf (off + 24 * m) 24 = Some bm
              \<longrightarrow> facetEdgeInBounds h (FileFacetEdge_of_bytes e bm))"
    by (simp add: decodeFacetEdges_def)
next
  assume "decodeFacetEdges e h buf off n = Inr rs"
  then have d: "decodeRecords 24 (decodeFacetEdge e h) buf off 0 n = Inr rs"
    by (simp add: decodeFacetEdges_def)
  from decodeRecords_Inr [OF d] show "length rs = n" by simp
  show "\<forall>k<n. off + 24 * k + 24 \<le> length buf \<and>
           rs ! k = FileFacetEdge_of_bytes e (bytes_at (off + 24 * k) 24 buf) \<and>
           cell (hf_0 (rs ! k)) < nC h \<and> cell (hf_1 (rs ! k)) < nC h \<and>
           vert (hf_0 (rs ! k)) < nV h \<and> vert (hf_1 (rs ! k)) < nV h \<and>
           face (rs ! k) < nF h \<and> edge (rs ! k) < nE h"
  proof (intro allI impI)
    fix k assume "k < n"
    with decodeRecords_Inr [OF d] obtain bk where
      bk: "slice buf (off + 24 * k) 24 = Some bk"
      and dk: "decodeFacetEdge e h k bk = Inr (rs ! k)"
      by auto
    from dk have r: "rs ! k = FileFacetEdge_of_bytes e bk" and ok: "facetEdgeInBounds h (rs ! k)"
      by (auto simp: decodeFacetEdge_def Let_def split: if_splits)
    from bk have "off + 24 * k + 24 \<le> length buf" "bk = bytes_at (off + 24 * k) 24 buf"
      by (auto simp: slice_def split: if_splits)
    with r ok show "off + 24 * k + 24 \<le> length buf \<and>
           rs ! k = FileFacetEdge_of_bytes e (bytes_at (off + 24 * k) 24 buf) \<and>
           cell (hf_0 (rs ! k)) < nC h \<and> cell (hf_1 (rs ! k)) < nC h \<and>
           vert (hf_0 (rs ! k)) < nV h \<and> vert (hf_1 (rs ! k)) < nV h \<and>
           face (rs ! k) < nF h \<and> edge (rs ! k) < nE h"
      by (simp add: facetEdgeInBounds_def)
  qed
qed (simp_all add: facetEdgeInBounds_def)

theorem decodeFacetEdges_referential_integrity_witness:
  "(1::nat) < 2 \<and> slice (goodRecord @ badRecord) (0 + 24 * 1) 24 = Some badRecord \<and>
   \<not> facetEdgeInBounds exampleHeader (FileFacetEdge_of_bytes LittleEndian badRecord) \<and>
   (\<exists>k. k \<le> 1 \<and> decodeFacetEdges LittleEndian exampleHeader (goodRecord @ badRecord) 0 2
            = Inl (ReferentialIntegrity k)) \<and>
   decodeFacetEdges LittleEndian exampleHeader (goodRecord @ badRecord) 0 2
     = Inl (ReferentialIntegrity 1) \<and>
   decodeFacetEdges LittleEndian exampleHeader (goodRecord @ badRecord) 0 1
     = Inr [\<lparr>face = 1, edge = 2, hf_0 = \<lparr>cell = 0, vert = 3\<rparr>, hf_1 = \<lparr>cell = 1, vert = 2\<rparr>\<rparr>] \<and>
   length [\<lparr>face = 1, edge = 2, hf_0 = \<lparr>cell = 0, vert = 3\<rparr>, hf_1 = \<lparr>cell = 1, vert = (2 :: id_t)\<rparr>\<rparr>]
     = 1"
proof -
  have h: "(1::nat) < 2 \<and> slice (goodRecord @ badRecord) (0 + 24 * 1) 24 = Some badRecord \<and>
      \<not> facetEdgeInBounds exampleHeader (FileFacetEdge_of_bytes LittleEndian badRecord)"
    using slice_example_1 bad_violates by simp
  from decodeFacetEdges_referential_integrity
    [of 1 2 "goodRecord @ badRecord" 0 badRecord exampleHeader LittleEndian]
  have "\<exists>k bk. k \<le> 1 \<and>
      decodeFacetEdges LittleEndian exampleHeader (goodRecord @ badRecord) 0 2
        = Inl (ReferentialIntegrity k) \<and>
      slice (goodRecord @ badRecord) (0 + 24 * k) 24 = Some bk \<and>
      \<not> facetEdgeInBounds exampleHeader (FileFacetEdge_of_bytes LittleEndian bk) \<and>
      (\<forall>m bm. m < k \<and> slice (goodRecord @ badRecord) (0 + 24 * m) 24 = Some bm
         \<longrightarrow> facetEdgeInBounds exampleHeader (FileFacetEdge_of_bytes LittleEndian bm))"
    using h by blast
  then have "\<exists>k. k \<le> 1 \<and> decodeFacetEdges LittleEndian exampleHeader (goodRecord @ badRecord) 0 2
            = Inl (ReferentialIntegrity k)"
    by blast
  with h decode_example_bad decode_example_good show ?thesis by simp
qed

section \<open>The magic-number gate\<close>

text \<open>
  C8. A buffer whose first four bytes are not the bytes of \<open>LISZT_MAGIC_NUMBER\<close> fails
  to decode with \<open>CorruptFile\<close>, whatever the rest of the buffer holds: the check comes
  before any other field is read. A buffer shorter than four bytes fails the same way.
\<close>

theorem magic_number_gate:
  "bytes_at 0 4 buf \<noteq> enc_u32 e LISZT_MAGIC_NUMBER \<Longrightarrow>
   decodeHeader e buf = Inl CorruptFile \<and> readMesh p e buf = Inl CorruptFile"
  by (simp add: decodeHeader_bad_magic readMesh_def)

theorem magic_number_gate_witness:
  "bytes_at 0 4 badMagicBuffer \<noteq> enc_u32 LittleEndian LISZT_MAGIC_NUMBER \<and>
   decodeHeader LittleEndian badMagicBuffer = Inl CorruptFile \<and>
   readMesh x86_64 LittleEndian badMagicBuffer = Inl CorruptFile \<and>
   bytes_at 0 4 [0x22, 0x10, 0x11] \<noteq> enc_u32 LittleEndian LISZT_MAGIC_NUMBER \<and>
   readMesh x86_64 LittleEndian [0x22, 0x10, 0x11] = Inl CorruptFile"
proof -
  have h1: "bytes_at 0 4 badMagicBuffer \<noteq> enc_u32 LittleEndian LISZT_MAGIC_NUMBER"
    by (simp add: enc_u32_magic_LE badMagicBuffer_def bytes_at_def)
  have h2: "bytes_at 0 4 [0x22, 0x10, 0x11] \<noteq> enc_u32 LittleEndian LISZT_MAGIC_NUMBER"
    by (simp add: enc_u32_magic_LE bytes_at_def)
  from magic_number_gate [OF h1, of x86_64] magic_number_gate [OF h2, of x86_64] h1 h2
  show ?thesis by simp
qed

section \<open>Layout of the header, the facet-edge record and the boundary set\<close>

text \<open>
  C6. The packed \<open>LisztHeader\<close> is 52 bytes: the 4-byte magic number at offset 0, the six
  4-byte counts \<open>nV\<close>, \<open>nE\<close>, \<open>nF\<close>, \<open>nC\<close>, \<open>nFE\<close>, \<open>nBoundaries\<close> at offsets 4 to 24,
  and the three 8-byte offsets \<open>field_table_index\<close>, \<open>facet_edge_table\<close>,
  \<open>boundary_set_table\<close> at 28, 36 and 44, with nothing in between; the bytes of a
  header hold each field at its offset.
\<close>

theorem LisztHeader_layout:
  "sizeof (Struct LisztHeader_decl) = 52 \<and>
   packed_layout 0 LisztHeader_decl =
     [(''magic_number'', 0, 4),
      (''nV'', 4, 4), (''nE'', 8, 4), (''nF'', 12, 4), (''nC'', 16, 4), (''nFE'', 20, 4),
      (''nBoundaries'', 24, 4),
      (''field_table_index'', 28, 8), (''facet_edge_table'', 36, 8),
      (''boundary_set_table'', 44, 8)] \<and>
   length (LisztHeader_bytes e h) = 52 \<and>
   bytes_at 0 4 (LisztHeader_bytes e h) = enc_u32 e (magic_number h) \<and>
   bytes_at 4 4 (LisztHeader_bytes e h) = enc_u32 e (nV h) \<and>
   bytes_at 8 4 (LisztHeader_bytes e h) = enc_u32 e (nE h) \<and>
   bytes_at 12 4 (LisztHeader_bytes e h) = enc_u32 e (nF h) \<and>
   bytes_at 16 4 (LisztHeader_bytes e h) = enc_u32 e (nC h) \<and>
   bytes_at 20 4 (LisztHeader_bytes e h) = enc_u32 e (nFE h) \<and>
   bytes_at 24 4 (LisztHeader_bytes e h) = enc_u32 e (nBoundaries h) \<and>
   bytes_at 28 8 (LisztHeader_bytes e h) = enc_u64 e (field_table_index h) \<and>
   bytes_at 36 8 (LisztHeader_bytes e h) = enc_u64 e (facet_edge_table h) \<and>
   bytes_at 44 8 (LisztHeader_bytes e h) = enc_u64 e (boundary_set_table h) \<and>
   length (enc_u32 e w) = 4 \<and> length (enc_u64 e v) = 8"
  by (simp add: LisztHeader_decl_def LisztHeader_bytes_def sizeof.simps
      file_ptr_t_def lsize_t_t_def)

text \<open>
  C7. A packed \<open>FileFacetEdge\<close> is 24 bytes: the face id at offset 0, the edge id at 4,
  then the two half-facets of 8 bytes each, a cell id followed by a vertex id, at 8 and
  16. A table of records has no bytes between them: record \<open>k\<close> is the 24 bytes at
  offset \<open>24 * k\<close>.
\<close>

theorem FileFacetEdge_layout:
  "sizeof (Struct FileFacetEdge_decl) = 24 \<and>
   packed_layout 0 FileFacetEdge_decl = [(''face'', 0, 4), (''edge'', 4, 4), (''hf'', 8, 16)] \<and>
   sizeof (Struct HalfFacet_decl) = 8 \<and>
   packed_layout 0 HalfFacet_decl = [(''cell'', 0, 4), (''vert'', 4, 4)] \<and>
   length (FileFacetEdge_bytes e r) = 24 \<and>
   bytes_at 0 4 (FileFacetEdge_bytes e r) = enc_u32 e (face r) \<and>
   bytes_at 4 4 (FileFacetEdge_bytes e r) = enc_u32 e (edge r) \<and>
   bytes_at 8 4 (FileFacetEdge_bytes e r) = enc_u32 e (cell (hf_0 r)) \<and>
   bytes_at 12 4 (FileFacetEdge_bytes e r) = enc_u32 e (vert (hf_0 r)) \<and>
   bytes_at 16 4 (FileFacetEdge_bytes e r) = enc_u32 e (cell (hf_1 r)) \<and>
   bytes_at 20 4 (FileFacetEdge_bytes e r) = enc_u32 e (vert (hf_1 r)) \<and>
   length (concat (map (FileFacetEdge_bytes e) rs)) = 24 * length rs \<and>
   (\<forall>k < length rs.
      bytes_at (24 * k) 24 (concat (map (FileFacetEdge_bytes e) rs))
        = FileFacetEdge_bytes e (rs ! k))"
proof -
  have "length (concat (map (FileFacetEdge_bytes e) rs)) = 24 * length rs"
    by (rule length_concat_fixed) simp
  moreover have "\<forall>k < length rs.
      bytes_at (24 * k) 24 (concat (map (FileFacetEdge_bytes e) rs))
        = FileFacetEdge_bytes e (rs ! k)"
    by (intro allI impI bytes_at_concat_fixed) simp_all
  ultimately show ?thesis
    by (simp add: FileFacetEdge_decl_def HalfFacet_decl_def FileFacetEdge_bytes_def
        HalfFacet_bytes_def sizeof.simps id_t_t_def)
qed

theorem FileFacetEdge_layout_witness:
  "sizeof (Struct FileFacetEdge_decl) = 24 \<and>
   length (concat (map (FileFacetEdge_bytes BigEndian) (mf_facetEdges exampleMesh @ mf_facetEdges exampleMesh))) = 48 \<and>
   (1 :: nat) < length (mf_facetEdges exampleMesh @ mf_facetEdges exampleMesh) \<and>
   bytes_at (24 * 1) 24
       (concat (map (FileFacetEdge_bytes BigEndian) (mf_facetEdges exampleMesh @ mf_facetEdges exampleMesh)))
     = FileFacetEdge_bytes BigEndian ((mf_facetEdges exampleMesh @ mf_facetEdges exampleMesh) ! 1)"
  using FileFacetEdge_layout
    [where e = BigEndian and rs = "mf_facetEdges exampleMesh @ mf_facetEdges exampleMesh"]
  by (simp add: exampleMesh_def)

text \<open>
  C10. A packed \<open>BoundarySet\<close> is 20 bytes: the 4-byte type tag, the two 4-byte unions
  and the 8-byte name offset. \<open>start\<close> and \<open>left_id\<close> are the same 4-byte storage, as
  are \<open>end\<close> and \<open>right_id\<close>, so a record written through the direct-range members has
  the same bytes as one written through the indirect-range members.
\<close>

theorem BoundarySet_layout:
  "sizeof (Struct BoundarySet_decl) = 20 \<and>
   packed_layout 0 BoundarySet_decl =
     [(''type'', 0, 4), (''union0'', 4, 4), (''union1'', 8, 4), (''name_string'', 12, 8)] \<and>
   sizeof id_t_t = 4 \<and> sizeof lsize_t_t = 4 \<and>
   sizeof (Union [(''start'', id_t_t), (''left_id'', lsize_t_t)]) = 4 \<and>
   sizeof (Union [(''end'', id_t_t), (''right_id'', lsize_t_t)]) = 4 \<and>
   bs_start b = bs_left_id b \<and> bs_end b = bs_right_id b \<and>
   set_start x b = set_left_id x b \<and> set_end y b = set_right_id y b \<and>
   length (BoundarySet_bytes e b) = 20 \<and>
   bytes_at 0 4 (BoundarySet_bytes e b) = enc_u32 e (bs_type b) \<and>
   bytes_at 4 4 (BoundarySet_bytes e b) = enc_u32 e (bs_start b) \<and>
   bytes_at 4 4 (BoundarySet_bytes e b) = enc_u32 e (bs_left_id b) \<and>
   bytes_at 8 4 (BoundarySet_bytes e b) = enc_u32 e (bs_end b) \<and>
   bytes_at 8 4 (BoundarySet_bytes e b) = enc_u32 e (bs_right_id b) \<and>
   bytes_at 12 8 (BoundarySet_bytes e b) = enc_u64 e (name_string b) \<and>
   BoundarySet_bytes e (set_end y (set_start x b))
     = BoundarySet_bytes e (set_right_id y (set_left_id x b)) \<and>
   bs_start (set_start x b) = x \<and> bs_left_id (set_start x b) = x \<and>
   bs_end (set_end y b) = y \<and> bs_right_id (set_end y b) = y"
  by (simp add: BoundarySet_decl_def BoundarySet_bytes_def sizeof.simps id_t_t_def
      lsize_t_t_def file_ptr_t_def bs_start_def bs_left_id_def bs_end_def bs_right_id_def
      set_start_def set_left_id_def set_end_def set_right_id_def)

end
